theory Spec2Isabelle
  imports Complex_Main
begin

section \<open>Python values\<close>

text \<open>
  A Python \<open>str\<close> is a sequence of Unicode code points, so it is modelled as a list of
  natural numbers (the hanzi this exporter handles lie far beyond one byte). \<open>lit\<close> turns
  an ASCII literal of the source into such a list.
\<close>

type_synonym pystr = "nat list"

definition lit :: "string \<Rightarrow> pystr" where
  "lit s = map of_char s"

text \<open>
  What \<open>response.json()\<close> returns: \<open>None\<close>, \<open>bool\<close>, \<open>int\<close>, \<open>float\<close>, \<open>str\<close>, \<open>list\<close>
  or \<open>dict\<close>. A dict is the list of its items in insertion order (the order
  \<open>.items()\<close> iterates in); the keys of a dict are distinct. The program only tests a
  number for being zero and prints it, so a float is kept as a rational.
\<close>

datatype json =
    JNull
  | JBool bool
  | JInt int
  | JFloat rat
  | JStr pystr
  | JArr "json list"
  | JObj "(pystr \<times> json) list"

text \<open>Python's truth test, as used by \<open>if x\<close> and \<open>not x\<close>.\<close>

fun truthy :: "json \<Rightarrow> bool" where
  "truthy JNull = False"
| "truthy (JBool b) = b"
| "truthy (JInt n) = (n \<noteq> 0)"
| "truthy (JFloat q) = (q \<noteq> 0)"
| "truthy (JStr s) = (s \<noteq> [])"
| "truthy (JArr xs) = (xs \<noteq> [])"
| "truthy (JObj kvs) = (kvs \<noteq> [])"

text \<open>
  The exceptions a run can raise. The last four are the ones \<open>main.py\<close> raises itself,
  kept with the values its f-strings interpolate:
  \<open>Exception(f"Failed to fetch decks: {status_code} {text}")\<close>,
  \<open>Exception("Failed to fetch decks after retries: Read operation timed out")\<close>,
  \<open>Exception(f"Deck '{deck_name}' not found")\<close> and
  \<open>Exception("Configuration error: ...")\<close>; the endpoint tells \<open>decks\<close> from \<open>cards\<close>.
\<close>

datatype endpoint = Decks | Cards

datatype exn =
    AttributeError
  | TypeError
  | KeyError pystr
  | ValueError
  | JSONDecodeError
  | TransportError
  | OSError
  | UnicodeEncodeError
  | FailedToFetch endpoint int pystr
  | RetriesExhausted endpoint
  | DeckNotFound pystr
  | ConfigurationError

text \<open>Sequencing of steps that may raise: the first exception ends the block.\<close>

definition after :: "exn + 'a \<Rightarrow> ('a \<Rightarrow> exn + 'b) \<Rightarrow> exn + 'b" where
  "after r f = (case r of Inl e \<Rightarrow> Inl e | Inr x \<Rightarrow> f x)"

text \<open>\<open>x.get(k, d)\<close>: only a dict has \<open>get\<close>.\<close>

fun py_get :: "json \<Rightarrow> pystr \<Rightarrow> json \<Rightarrow> exn + json" where
  "py_get (JObj kvs) k d = Inr (case map_of kvs k of Some v \<Rightarrow> v | None \<Rightarrow> d)"
| "py_get JNull k d = Inl AttributeError"
| "py_get (JBool b) k d = Inl AttributeError"
| "py_get (JInt n) k d = Inl AttributeError"
| "py_get (JFloat q) k d = Inl AttributeError"
| "py_get (JStr s) k d = Inl AttributeError"
| "py_get (JArr xs) k d = Inl AttributeError"

text \<open>\<open>x.items()\<close>: only a dict has \<open>items\<close>.\<close>

fun py_items :: "json \<Rightarrow> exn + (pystr \<times> json) list" where
  "py_items (JObj kvs) = Inr kvs"
| "py_items JNull = Inl AttributeError"
| "py_items (JBool b) = Inl AttributeError"
| "py_items (JInt n) = Inl AttributeError"
| "py_items (JFloat q) = Inl AttributeError"
| "py_items (JStr s) = Inl AttributeError"
| "py_items (JArr xs) = Inl AttributeError"

text \<open>\<open>x[k]\<close> with a string key: a missing key is a KeyError, a non-dict a TypeError.\<close>

fun py_index :: "json \<Rightarrow> pystr \<Rightarrow> exn + json" where
  "py_index (JObj kvs) k = (case map_of kvs k of Some v \<Rightarrow> Inr v | None \<Rightarrow> Inl (KeyError k))"
| "py_index JNull k = Inl TypeError"
| "py_index (JBool b) k = Inl TypeError"
| "py_index (JInt n) k = Inl TypeError"
| "py_index (JFloat q) k = Inl TypeError"
| "py_index (JStr s) k = Inl TypeError"
| "py_index (JArr xs) k = Inl TypeError"

text \<open>
  \<open>for x in v\<close> and \<open>list.extend(v)\<close>: a list yields its elements, a dict its keys, a
  string its characters; nothing else is iterable.
\<close>

fun py_iter :: "json \<Rightarrow> exn + json list" where
  "py_iter (JArr xs) = Inr xs"
| "py_iter (JObj kvs) = Inr (map (\<lambda>kv. JStr (fst kv)) kvs)"
| "py_iter (JStr s) = Inr (map (\<lambda>c. JStr [c]) s)"
| "py_iter JNull = Inl TypeError"
| "py_iter (JBool b) = Inl TypeError"
| "py_iter (JInt n) = Inl TypeError"
| "py_iter (JFloat q) = Inl TypeError"

text \<open>\<open>len(v)\<close>.\<close>

fun py_len :: "json \<Rightarrow> exn + nat" where
  "py_len (JArr xs) = Inr (length xs)"
| "py_len (JObj kvs) = Inr (length kvs)"
| "py_len (JStr s) = Inr (length s)"
| "py_len JNull = Inl TypeError"
| "py_len (JBool b) = Inl TypeError"
| "py_len (JInt n) = Inl TypeError"
| "py_len (JFloat q) = Inl TypeError"

text \<open>
  Four things of the Python runtime are parameters of the model: \<open>str.lower\<close> (full
  Unicode case mapping), \<open>datetime.fromisoformat(s).strftime("%Y-%m-%d %H:%M:%S")\<close>
  (\<open>None\<close> when \<open>fromisoformat\<close> raises ValueError), \<open>str(v)\<close> of a value that is
  not a string, as an f-string interpolates it, and the lone surrogates the error handler of
  \<open>sys.stdout\<close> lets through (none with \<open>strict\<close>, U+DC80 to U+DCFF with
  \<open>surrogateescape\<close>).
\<close>

record pylib =
  str_lower :: "pystr \<Rightarrow> pystr"
  reformat_iso :: "pystr \<Rightarrow> pystr option"
  str_of :: "json \<Rightarrow> pystr"
  stdout_passes :: "nat \<Rightarrow> bool"

text \<open>
  A \<open>str\<close> can hold a lone surrogate, a code point from U+D800 to U+DFFF:
  \<open>response.json()\<close> makes one from the JSON escape of that code point alone. UTF-8 has
  no encoding for it. \<open>f.write(s)\<close> on the file opened with \<open>encoding="utf-8"\<close> encodes
  \<open>s\<close> before it keeps any of it, and raises UnicodeEncodeError when \<open>s\<close> holds a lone
  surrogate. \<open>print(s)\<close> on a UTF-8 terminal raises it as well, and prints nothing of \<open>s\<close>,
  when \<open>s\<close> holds a lone surrogate that the error handler of \<open>sys.stdout\<close> does not let
  through.
\<close>

definition is_surrogate :: "nat \<Rightarrow> bool" where
  "is_surrogate c = (55296 \<le> c \<and> c \<le> 57343)"

definition write_raises :: "pystr \<Rightarrow> bool" where
  "write_raises s = list_ex is_surrogate s"

definition print_raises :: "pylib \<Rightarrow> pystr \<Rightarrow> bool" where
  "print_raises lib s = list_ex (\<lambda>c. is_surrogate c \<and> \<not> stdout_passes lib c) s"

text \<open>
  \<open>json.dumps(v, ensure_ascii=False)\<close> writes the characters of the strings and of the
  keys of \<open>v\<close> as they are, a lone surrogate too; it escapes the quote, the backslash and the
  control characters only, and all that it adds is ASCII. \<open>json_chars\<close> are the characters
  of the strings and keys of \<open>v\<close>, in the order of the text.
\<close>

fun json_chars :: "json \<Rightarrow> pystr" where
  "json_chars JNull = []"
| "json_chars (JBool b) = []"
| "json_chars (JInt n) = []"
| "json_chars (JFloat q) = []"
| "json_chars (JStr s) = s"
| "json_chars (JArr xs) = concat (map json_chars xs)"
| "json_chars (JObj kvs) = concat (map (\<lambda>kv. fst kv @ json_chars (snd kv)) kvs)"

text \<open>\<open>f"{v}"\<close>: a string is interpolated as it is.\<close>

fun fmt :: "pylib \<Rightarrow> json \<Rightarrow> pystr" where
  "fmt lib (JStr s) = s"
| "fmt lib JNull = str_of lib JNull"
| "fmt lib (JBool b) = str_of lib (JBool b)"
| "fmt lib (JInt n) = str_of lib (JInt n)"
| "fmt lib (JFloat q) = str_of lib (JFloat q)"
| "fmt lib (JArr xs) = str_of lib (JArr xs)"
| "fmt lib (JObj kvs) = str_of lib (JObj kvs)"

text \<open>\<open>v.lower()\<close>: only a string has \<open>lower\<close>.\<close>

fun py_lower :: "pylib \<Rightarrow> json \<Rightarrow> exn + pystr" where
  "py_lower lib (JStr s) = Inr (str_lower lib s)"
| "py_lower lib JNull = Inl AttributeError"
| "py_lower lib (JBool b) = Inl AttributeError"
| "py_lower lib (JInt n) = Inl AttributeError"
| "py_lower lib (JFloat q) = Inl AttributeError"
| "py_lower lib (JArr xs) = Inl AttributeError"
| "py_lower lib (JObj kvs) = Inl AttributeError"

section \<open>The two regular expressions and \<open>strip\<close>\<close>

text \<open>
  The whitespace of \<open>\s\<close> in a \<open>str\<close> pattern and of \<open>str.strip()\<close>: the code points for
  which \<open>str.isspace\<close> holds.
\<close>

definition isspace :: "nat \<Rightarrow> bool" where
  "isspace c =
     ((9 \<le> c \<and> c \<le> 13) \<or> (28 \<le> c \<and> c \<le> 32) \<or> c = 133 \<or> c = 160 \<or> c = 5760 \<or>
      (8192 \<le> c \<and> c \<le> 8202) \<or> c = 8232 \<or> c = 8233 \<or> c = 8239 \<or> c = 8287 \<or> c = 12288)"

definition py_strip :: "pystr \<Rightarrow> pystr" where
  "py_strip s = rev (dropWhile isspace (rev (dropWhile isspace s)))"

text \<open>
  \<open>re.search(r'\((.*?)\)', s)\<close>, group 1. \<open>upto_close\<close> reads the text after an opening
  parenthesis (code point 40) up to the first closing one (41); the dot does not match
  a line feed (10), so a line feed before the closing parenthesis makes the match fail
  at this opening parenthesis and the search goes on to the right.
\<close>

fun upto_close :: "pystr \<Rightarrow> pystr option" where
  "upto_close [] = None"
| "upto_close (c # cs) =
     (if c = 41 then Some []
      else if c = 10 then None
      else map_option ((#) c) (upto_close cs))"

fun search_paren :: "pystr \<Rightarrow> pystr option" where
  "search_paren [] = None"
| "search_paren (c # cs) =
     (if c = 40 then (case upto_close cs of Some g \<Rightarrow> Some g | None \<Rightarrow> search_paren cs)
      else search_paren cs)"

text \<open>
  \<open>re.sub(r'\s*V\s*', '', s)\<close>. At each position the greedy \<open>\s*\<close> takes the whole run
  of whitespace; the match succeeds there exactly when a \<open>V\<close> (code point 86) follows
  the run, and then takes the whitespace after the \<open>V\<close> too. Where no match starts, the
  character is kept and the scan moves one position on.
\<close>

function sub_V :: "pystr \<Rightarrow> pystr" where
  "sub_V [] = []"
| "sub_V (c # cs) =
     (case dropWhile isspace (c # cs) of
        [] \<Rightarrow> c # sub_V cs
      | v # rest \<Rightarrow> if v = 86 then sub_V (dropWhile isspace rest) else c # sub_V cs)"
  by pat_completeness auto
termination
proof (relation "measure length")
  show "wf (measure length)" by simp
next
  fix c :: nat and cs :: pystr
  show "(cs, c # cs) \<in> measure length" by simp
next
  fix c :: nat and cs x21 x22
  assume d: "dropWhile isspace (c # cs) = x21 # x22" and "x21 = 86"
  have "length (dropWhile isspace x22) \<le> length x22"
    by (rule length_dropWhile_le)
  moreover have "length (x21 # x22) \<le> length (c # cs)"
    using length_dropWhile_le [of isspace "c # cs"] d by simp
  ultimately show "(dropWhile isspace x22, c # cs) \<in> measure length" by simp
next
  fix c :: nat and cs x21 x22
  show "(cs, c # cs) \<in> measure length" by simp
qed

text \<open>The two calls need a string: \<open>re\<close> raises TypeError on anything else.\<close>

fun re_search_paren :: "json \<Rightarrow> exn + pystr option" where
  "re_search_paren (JStr s) = Inr (search_paren s)"
| "re_search_paren JNull = Inl TypeError"
| "re_search_paren (JBool b) = Inl TypeError"
| "re_search_paren (JInt n) = Inl TypeError"
| "re_search_paren (JFloat q) = Inl TypeError"
| "re_search_paren (JArr xs) = Inl TypeError"
| "re_search_paren (JObj kvs) = Inl TypeError"

fun re_sub_V :: "json \<Rightarrow> exn + pystr" where
  "re_sub_V (JStr s) = Inr (sub_V s)"
| "re_sub_V JNull = Inl TypeError"
| "re_sub_V (JBool b) = Inl TypeError"
| "re_sub_V (JInt n) = Inl TypeError"
| "re_sub_V (JFloat q) = Inl TypeError"
| "re_sub_V (JArr xs) = Inl TypeError"
| "re_sub_V (JObj kvs) = Inl TypeError"

text \<open>\<open>v.replace("Z", "+00:00")\<close> (\<open>Z\<close> is code point 90): only a string has \<open>replace\<close>.\<close>

fun py_replace_Z :: "json \<Rightarrow> exn + pystr" where
  "py_replace_Z (JStr s) = Inr (concat (map (\<lambda>c. if c = 90 then lit ''+00:00'' else [c]) s))"
| "py_replace_Z JNull = Inl AttributeError"
| "py_replace_Z (JBool b) = Inl AttributeError"
| "py_replace_Z (JInt n) = Inl AttributeError"
| "py_replace_Z (JFloat q) = Inl AttributeError"
| "py_replace_Z (JArr xs) = Inl AttributeError"
| "py_replace_Z (JObj kvs) = Inl AttributeError"

section \<open>\<open>parse_card\<close>\<close>

text \<open>The dict \<open>parse_card\<close> returns, with its four keys.\<close>

record parsed =
  pinyin :: pystr
  hanzi :: pystr
  meaning :: json
  added :: json

text \<open>
  The loop over \<open>component_cache.items()\<close>: the first entry whose \<open>text\<close> has a
  parenthesised group gives the pinyin.
\<close>

fun scan_pinyin :: "(pystr \<times> json) list \<Rightarrow> exn + pystr" where
  "scan_pinyin [] = Inr []"
| "scan_pinyin ((key, val) # rest) =
     (case py_get val (lit ''text'') (JStr []) of
        Inl e \<Rightarrow> Inl e
      | Inr pinyin_text \<Rightarrow>
          (case re_search_paren pinyin_text of
             Inl e \<Rightarrow> Inl e
           | Inr (Some g) \<Rightarrow> Inr g
           | Inr None \<Rightarrow> scan_pinyin rest))"

definition extract_pinyin :: "json \<Rightarrow> exn + pystr" where
  "extract_pinyin crd =
     after (py_get crd (lit ''component-cache'') (JObj [])) (\<lambda>cc.
     after (py_get cc (lit ''pinyin'') (JObj [])) (\<lambda>component_cache.
     after (py_items component_cache) scan_pinyin))"

text \<open>
  The loop over \<open>fields.items()\<close>: the first entry whose key is not \<open>"name"\<close> gives the
  hanzi, and the loop ends there.
\<close>

fun scan_hanzi :: "(pystr \<times> json) list \<Rightarrow> exn + pystr" where
  "scan_hanzi [] = Inr []"
| "scan_hanzi ((field_id, field_data) # rest) =
     (if field_id \<noteq> lit ''name''
      then (case py_get field_data (lit ''value'') (JStr []) of
              Inl e \<Rightarrow> Inl e
            | Inr field_value \<Rightarrow>
                (case re_sub_V field_value of
                   Inl e \<Rightarrow> Inl e
                 | Inr s \<Rightarrow> Inr (py_strip s)))
      else scan_hanzi rest)"

definition extract_hanzi :: "json \<Rightarrow> exn + pystr" where
  "extract_hanzi crd =
     after (py_get crd (lit ''fields'') (JObj [])) (\<lambda>fields.
     after (py_items fields) scan_hanzi)"

text \<open>
  The meaning is \<open>card.get("name", "")\<close>; when that is falsy, the first key of
  \<open>component-cache.translate\<close>, if there is one.
\<close>

definition extract_meaning :: "json \<Rightarrow> exn + json" where
  "extract_meaning crd =
     after (py_get crd (lit ''name'') (JStr [])) (\<lambda>meaning.
       if \<not> truthy meaning
       then after (py_get crd (lit ''component-cache'') (JObj [])) (\<lambda>cc.
            after (py_get cc (lit ''translate'') (JObj [])) (\<lambda>translate_cache.
            after (py_items translate_cache) (\<lambda>items.
              case items of
                [] \<Rightarrow> Inr meaning
              | (key, val) # rest \<Rightarrow> Inr (JStr key))))
       else Inr meaning)"

definition extract_added :: "pylib \<Rightarrow> json \<Rightarrow> exn + json" where
  "extract_added lib crd =
     after (py_get crd (lit ''created-at'') (JObj [])) (\<lambda>created.
     after (py_get created (lit ''date'') (JStr [])) (\<lambda>created_at.
       if truthy created_at
       then after (py_replace_Z created_at) (\<lambda>s.
              case reformat_iso lib s of
                None \<Rightarrow> Inl ValueError
              | Some t \<Rightarrow> Inr (JStr t))
       else Inr created_at))"

text \<open>What the program prints, one constructor for each \<open>print\<close> of the source.\<close>

datatype message =
    LoadedAPIKey pystr pystr
  | ReadTimeoutRetrying nat nat nat
  | FetchedCardsFromPage nat
  | SkippingCard json
  | ErrorParsingCard exn json
  | WroteValidCards nat pystr
  | FetchingDeck pystr
  | FetchingCards
  | FoundCards nat
  | NoCardsFound
  | WritingTo pystr
  | VocabularyExported pystr
  | ErrorMessage exn

text \<open>
  The two \<open>print\<close> of \<open>parse_card\<close>, lines 138 and 148, end with
  \<open>json.dumps(card, ensure_ascii=False)\<close>. The text before it is ASCII (the message of an
  exception that an extraction raises shows a string by its \<open>repr\<close>, which escapes a
  surrogate), so each of them raises UnicodeEncodeError exactly when the card holds a
  surrogate that the terminal does not let through.
\<close>

definition card_print_raises :: "pylib \<Rightarrow> json \<Rightarrow> bool" where
  "card_print_raises lib crd = print_raises lib (json_chars crd)"

text \<open>
  The \<open>try\<close> block of \<open>parse_card\<close>: the four extractions in the order of the source, then
  the test on the three critical fields. \<open>Inr None\<close> is the \<open>return None\<close> of line 139,
  reached when the \<open>print\<close> of line 138 has printed; when that \<open>print\<close> raises, the block
  raises.
\<close>

definition parse_card_try :: "pylib \<Rightarrow> json \<Rightarrow> exn + parsed option" where
  "parse_card_try lib crd =
     after (extract_pinyin crd) (\<lambda>pin.
     after (extract_hanzi crd) (\<lambda>han.
     after (extract_meaning crd) (\<lambda>mean.
     after (extract_added lib crd) (\<lambda>created_at.
       if pin = [] \<and> han = [] \<and> \<not> truthy mean
       then (if card_print_raises lib crd then Inl UnicodeEncodeError else Inr None)
       else Inr (Some \<lparr>pinyin = pin, hanzi = han, meaning = mean, added = created_at\<rparr>)))))"

text \<open>
  \<open>parse_card\<close> with its \<open>except Exception\<close>: the result and what was printed. The
  handler catches what the \<open>try\<close> block raises, the UnicodeEncodeError of line 138 too, and
  prints at line 148; when that \<open>print\<close> raises, nothing catches it and \<open>parse_card\<close>
  raises.
\<close>

definition parse_card :: "pylib \<Rightarrow> json \<Rightarrow> (exn + parsed option) \<times> message list" where
  "parse_card lib crd =
     (case parse_card_try lib crd of
        Inl e \<Rightarrow>
          if card_print_raises lib crd then (Inl UnicodeEncodeError, [])
          else (Inr None, [ErrorParsingCard e crd])
      | Inr None \<Rightarrow> (Inr None, [SkippingCard crd])
      | Inr (Some r) \<Rightarrow> (Inr (Some r), []))"

section \<open>The world: the HTTP service, the terminal and the file system\<close>

text \<open>
  What \<open>client.get(url)\<close> can do: raise \<open>httpx.ReadTimeout\<close>, raise another exception
  of the transport, or return a response with its \<open>status_code\<close>, its \<open>text\<close> and what
  \<open>response.json()\<close> gives (\<open>None\<close> when the body is not JSON and \<open>json()\<close> raises).
\<close>

datatype outcome =
    ReadTimeout
  | NetworkError
  | Response int pystr "json option"

text \<open>
  The service is a state machine: from its state and the URL asked for it gives an outcome
  and its next state. The Basic-auth header and the 30 second limits are fixed for the whole
  run and are part of the service's behaviour.
\<close>

type_synonym 's server = "'s \<Rightarrow> pystr \<Rightarrow> outcome \<times> 's"

datatype event =
    Get pystr
  | Sleep nat
  | Print message

text \<open>
  The world a run acts on: the state of the service, everything done so far in order, the
  files by path, and the paths \<open>open(path, "w")\<close> fails on. A \<open>print\<close> that returns adds
  its message to what was done. Of the texts the program prints, only the raw card of lines
  138 and 148 is made of strings of the service's JSON; the others are made of the
  configuration, of numbers and of the message of an exception, in which no lone surrogate
  stands, so \<open>py_print\<close> and \<open>print_all\<close> are the \<open>print\<close> that returns.
\<close>

record 's world =
  server :: 's
  trace :: "event list"
  files :: "pystr \<Rightarrow> pystr option"
  unwritable :: "pystr \<Rightarrow> bool"

definition emit :: "event \<Rightarrow> 's world \<Rightarrow> 's world" where
  "emit ev w = w\<lparr>trace := trace w @ [ev]\<rparr>"

definition py_print :: "message \<Rightarrow> 's world \<Rightarrow> 's world" where
  "py_print msg w = emit (Print msg) w"

definition print_all :: "message list \<Rightarrow> 's world \<Rightarrow> 's world" where
  "print_all msgs w = w\<lparr>trace := trace w @ map Print msgs\<rparr>"

definition sleep :: "nat \<Rightarrow> 's world \<Rightarrow> 's world" where
  "sleep secs w = emit (Sleep secs) w"

definition client_get :: "'s server \<Rightarrow> pystr \<Rightarrow> 's world \<Rightarrow> outcome \<times> 's world" where
  "client_get srv url w =
     (case srv (server w) url of (r, s') \<Rightarrow> (r, emit (Get url) (w\<lparr>server := s'\<rparr>)))"

section \<open>Configuration\<close>

record config =
  api_key :: pystr
  api_base_url :: pystr
  deck_name :: pystr
  output_file :: pystr

text \<open>
  What pydantic-settings finds for each field under the prefix \<open>MOCHI_\<close>, in the
  environment or in \<open>.env\<close>.
\<close>

record settings =
  MOCHI_API_KEY :: "pystr option"
  MOCHI_API_BASE_URL :: "pystr option"
  MOCHI_DECK_NAME :: "pystr option"
  MOCHI_OUTPUT_FILE :: "pystr option"

text \<open>
  Lines 24 to 31, run when the module is loaded: \<open>MochiConfig()\<close> fails when the required
  \<open>api_key\<close> is missing, and the handler raises the configuration error in its place.
  \<open>key[-4:]\<close> is the last four characters, or the whole key when it is shorter.
\<close>

definition load_config :: "settings \<Rightarrow> 's world \<Rightarrow> (exn + config) \<times> 's world" where
  "load_config env w =
     (case MOCHI_API_KEY env of
        None \<Rightarrow> (Inl ConfigurationError, w)
      | Some k \<Rightarrow>
          (Inr \<lparr>api_key = k,
                api_base_url = (case MOCHI_API_BASE_URL env of
                                  None \<Rightarrow> lit ''https://app.mochi.cards/api'' | Some u \<Rightarrow> u),
                deck_name = (case MOCHI_DECK_NAME env of None \<Rightarrow> lit ''Chinese'' | Some d \<Rightarrow> d),
                output_file = (case MOCHI_OUTPUT_FILE env of
                                 None \<Rightarrow> lit ''chinese_vocab.txt'' | Some f \<Rightarrow> f)\<rparr>,
           py_print (LoadedAPIKey (take 4 k) (drop (length k - 4) k)) w))"

section \<open>\<open>get_deck_id\<close>\<close>

definition retries :: nat where
  "retries = 3"

text \<open>
  The scan \<open>for deck in decks\<close> of lines 48 to 50: \<open>Inr (Some id)\<close> is the
  \<open>return deck["id"]\<close>, \<open>Inr None\<close> the end of the page without a match.
\<close>

fun find_deck :: "pylib \<Rightarrow> pystr \<Rightarrow> json list \<Rightarrow> exn + json option" where
  "find_deck lib wanted [] = Inr None"
| "find_deck lib wanted (deck # decks) =
     (case py_index deck (lit ''name'') of
        Inl e \<Rightarrow> Inl e
      | Inr nm \<Rightarrow>
          (case py_lower lib nm of
             Inl e \<Rightarrow> Inl e
           | Inr low \<Rightarrow>
               if low = str_lower lib wanted
               then (case py_index deck (lit ''id'') of
                       Inl e \<Rightarrow> Inl e
                     | Inr deck_id \<Rightarrow> Inr (Some deck_id))
               else find_deck lib wanted decks))"

text \<open>
  How the body of the \<open>try\<close> is left when nothing is raised: by \<open>return\<close>, or by a \<open>break\<close>
  out of the retry loop with the value \<open>url\<close> then has.
\<close>

datatype deck_step = DeckReturn json | DeckBreak pystr

text \<open>Lines 44 to 55, for a response that arrived.\<close>

definition decks_response ::
  "pylib \<Rightarrow> config \<Rightarrow> pystr \<Rightarrow> pystr \<Rightarrow> int \<Rightarrow> pystr \<Rightarrow> json option \<Rightarrow> exn + deck_step" where
  "decks_response lib cfg wanted url status txt body =
     (if status \<noteq> 200 then Inl (FailedToFetch Decks status txt)
      else case body of
        None \<Rightarrow> Inl JSONDecodeError
      | Some data \<Rightarrow>
          after (py_get data (lit ''docs'') (JArr [])) (\<lambda>decks.
          after (py_iter decks) (\<lambda>deck_list.
          after (find_deck lib wanted deck_list) (\<lambda>found.
            case found of
              Some deck_id \<Rightarrow> Inr (DeckReturn deck_id)
            | None \<Rightarrow>
                after (py_get data (lit ''bookmark'') JNull) (\<lambda>bookmark.
                  if \<not> truthy bookmark \<or> \<not> truthy decks then Inr (DeckBreak url)
                  else Inr (DeckBreak
                         (api_base_url cfg @ lit ''/decks?bookmark='' @ fmt lib bookmark)))))))"

text \<open>
  The retry loop \<open>for attempt in range(retries)\<close> of lines 41 to 61, over the attempts
  still to make. A loop that ran out of attempts would go back to the \<open>while\<close> with
  \<open>url\<close> as it was.
\<close>

fun decks_attempts ::
  "pylib \<Rightarrow> 's server \<Rightarrow> config \<Rightarrow> pystr \<Rightarrow> pystr \<Rightarrow> nat list \<Rightarrow> 's world
     \<Rightarrow> (exn + deck_step) \<times> 's world" where
  "decks_attempts lib srv cfg wanted url [] w = (Inr (DeckBreak url), w)"
| "decks_attempts lib srv cfg wanted url (attempt # rest) w =
     (case client_get srv url w of
        (ReadTimeout, w1) \<Rightarrow>
          if attempt < retries - 1
          then decks_attempts lib srv cfg wanted url rest
                 (sleep (2 ^ attempt)
                    (py_print (ReadTimeoutRetrying (attempt + 1) retries (2 ^ attempt)) w1))
          else (Inl (RetriesExhausted Decks), w1)
      | (NetworkError, w1) \<Rightarrow> (Inl TransportError, w1)
      | (Response status txt body, w1) \<Rightarrow>
          (decks_response lib cfg wanted url status txt body, w1))"

text \<open>
  The loop \<open>while url\<close> of lines 39 to 62. Each turn of the loop uses one unit of fuel;
  \<open>None\<close> says that the fuel ran out before the function returned or raised.
\<close>

fun get_deck_id_loop ::
  "nat \<Rightarrow> pylib \<Rightarrow> 's server \<Rightarrow> config \<Rightarrow> pystr \<Rightarrow> pystr \<Rightarrow> 's world
     \<Rightarrow> ((exn + json) \<times> 's world) option" where
  "get_deck_id_loop 0 lib srv cfg wanted url w = None"
| "get_deck_id_loop (Suc fuel) lib srv cfg wanted url w =
     (if url = [] then Some (Inl (DeckNotFound wanted), w)
      else case decks_attempts lib srv cfg wanted url [0..<retries] w of
        (Inl e, w') \<Rightarrow> Some (Inl e, w')
      | (Inr (DeckReturn deck_id), w') \<Rightarrow> Some (Inr deck_id, w')
      | (Inr (DeckBreak url'), w') \<Rightarrow> get_deck_id_loop fuel lib srv cfg wanted url' w')"

definition get_deck_id ::
  "nat \<Rightarrow> pylib \<Rightarrow> 's server \<Rightarrow> config \<Rightarrow> pystr \<Rightarrow> 's world
     \<Rightarrow> ((exn + json) \<times> 's world) option" where
  "get_deck_id fuel lib srv cfg wanted w =
     get_deck_id_loop fuel lib srv cfg wanted (api_base_url cfg @ lit ''/decks'') w"

section \<open>\<open>get_cards\<close>\<close>

datatype cards_step = CardsReturn "json list" | CardsBreak pystr "json list"

text \<open>
  Lines 76 to 88, for a response that arrived; \<open>cards\<close> is the list gathered so far, which
  \<open>cards.extend(page_cards)\<close> grows before either test.
\<close>

definition cards_response ::
  "pylib \<Rightarrow> config \<Rightarrow> json list \<Rightarrow> int \<Rightarrow> pystr \<Rightarrow> json option \<Rightarrow> 's world
     \<Rightarrow> (exn + cards_step) \<times> 's world" where
  "cards_response lib cfg cards status txt body w =
     (if status \<noteq> 200 then (Inl (FailedToFetch Cards status txt), w)
      else case body of
        None \<Rightarrow> (Inl JSONDecodeError, w)
      | Some data \<Rightarrow>
          (case py_get data (lit ''docs'') (JArr []) of
             Inl e \<Rightarrow> (Inl e, w)
           | Inr page_cards \<Rightarrow>
               (case py_len page_cards of
                  Inl e \<Rightarrow> (Inl e, w)
                | Inr n \<Rightarrow>
                    (let w1 = py_print (FetchedCardsFromPage n) w in
                     case py_iter page_cards of
                       Inl e \<Rightarrow> (Inl e, w1)
                     | Inr new_cards \<Rightarrow>
                         if \<not> truthy page_cards then (Inr (CardsReturn (cards @ new_cards)), w1)
                         else (case py_get data (lit ''bookmark'') JNull of
                                 Inl e \<Rightarrow> (Inl e, w1)
                               | Inr bookmark \<Rightarrow>
                                   if \<not> truthy bookmark
                                   then (Inr (CardsReturn (cards @ new_cards)), w1)
                                   else (Inr (CardsBreak
                                           (api_base_url cfg @ lit ''/cards?bookmark='' @
                                              fmt lib bookmark @ lit ''&limit=100'')
                                           (cards @ new_cards)), w1))))))"

text \<open>The retry loop of lines 73 to 94.\<close>

fun cards_attempts ::
  "pylib \<Rightarrow> 's server \<Rightarrow> config \<Rightarrow> json list \<Rightarrow> pystr \<Rightarrow> nat list \<Rightarrow> 's world
     \<Rightarrow> (exn + cards_step) \<times> 's world" where
  "cards_attempts lib srv cfg cards url [] w = (Inr (CardsBreak url cards), w)"
| "cards_attempts lib srv cfg cards url (attempt # rest) w =
     (case client_get srv url w of
        (ReadTimeout, w1) \<Rightarrow>
          if attempt < retries - 1
          then cards_attempts lib srv cfg cards url rest
                 (sleep (2 ^ attempt)
                    (py_print (ReadTimeoutRetrying (attempt + 1) retries (2 ^ attempt)) w1))
          else (Inl (RetriesExhausted Cards), w1)
      | (NetworkError, w1) \<Rightarrow> (Inl TransportError, w1)
      | (Response status txt body, w1) \<Rightarrow> cards_response lib cfg cards status txt body w1)"

text \<open>The loop \<open>while url\<close> of lines 71 to 95, with fuel as above.\<close>

fun get_cards_loop ::
  "nat \<Rightarrow> pylib \<Rightarrow> 's server \<Rightarrow> config \<Rightarrow> json list \<Rightarrow> pystr \<Rightarrow> 's world
     \<Rightarrow> ((exn + json list) \<times> 's world) option" where
  "get_cards_loop 0 lib srv cfg cards url w = None"
| "get_cards_loop (Suc fuel) lib srv cfg cards url w =
     (if url = [] then Some (Inr cards, w)
      else case cards_attempts lib srv cfg cards url [0..<retries] w of
        (Inl e, w') \<Rightarrow> Some (Inl e, w')
      | (Inr (CardsReturn cards'), w') \<Rightarrow> Some (Inr cards', w')
      | (Inr (CardsBreak url' cards'), w') \<Rightarrow> get_cards_loop fuel lib srv cfg cards' url' w')"

definition get_cards ::
  "nat \<Rightarrow> pylib \<Rightarrow> 's server \<Rightarrow> config \<Rightarrow> json \<Rightarrow> 's world
     \<Rightarrow> ((exn + json list) \<times> 's world) option" where
  "get_cards fuel lib srv cfg deck_id w =
     get_cards_loop fuel lib srv cfg []
       (api_base_url cfg @ lit ''/cards?deck-id='' @ fmt lib deck_id @ lit ''&limit=100'') w"

section \<open>\<open>write_vocab_to_file\<close>\<close>

text \<open>
  The first loop, lines 154 to 157: the cards are parsed in order and the valid ones are
  kept. The loop has no handler: when \<open>parse_card\<close> raises, the loop ends there and the
  cards after that one are not looked at.
\<close>

fun valid_cards_loop ::
  "pylib \<Rightarrow> json list \<Rightarrow> parsed list \<Rightarrow> 's world \<Rightarrow> (exn + parsed list) \<times> 's world" where
  "valid_cards_loop lib [] valid_cards w = (Inr valid_cards, w)"
| "valid_cards_loop lib (crd # cards) valid_cards w =
     (case parse_card lib crd of
        (Inl e, msgs) \<Rightarrow> (Inl e, print_all msgs w)
      | (Inr (Some p), msgs) \<Rightarrow> valid_cards_loop lib cards (valid_cards @ [p]) (print_all msgs w)
      | (Inr None, msgs) \<Rightarrow> valid_cards_loop lib cards valid_cards (print_all msgs w))"

text \<open>
  The texts of the four \<open>f.write\<close> of lines 161 to 164, one for each call; a line feed is
  code point 10.
\<close>

definition record_lines :: "pylib \<Rightarrow> parsed \<Rightarrow> pystr list" where
  "record_lines lib p =
     [lit ''Pinyin: '' @ pinyin p @ [10],
      lit ''Hanzi: '' @ hanzi p @ [10],
      lit ''Meaning: '' @ fmt lib (meaning p) @ [10],
      lit ''Added: '' @ fmt lib (added p) @ [10]]"

text \<open>
  The second loop, \<open>for i, parsed in enumerate(valid_cards, 1)\<close>, with \<open>n\<close> for
  \<open>len(valid_cards)\<close>: the texts it hands to \<open>f.write\<close>, one for each call, in order.
\<close>

fun write_loop :: "pylib \<Rightarrow> nat \<Rightarrow> nat \<Rightarrow> parsed list \<Rightarrow> pystr list" where
  "write_loop lib n i [] = []"
| "write_loop lib n i (p # ps) =
     record_lines lib p @ (if i < n then [lit ''---'' @ [10]] else []) @
     write_loop lib n (Suc i) ps"

text \<open>
  These calls of \<open>f.write\<close> on the file, which holds \<open>content\<close> so far: a text that can be
  encoded is added to the file; the first one that cannot raises UnicodeEncodeError, the
  calls after it are not made, and the \<open>with\<close> block closes the file with what the calls
  before it wrote.
\<close>

fun f_write :: "pystr list \<Rightarrow> pystr \<Rightarrow> exn option \<times> pystr" where
  "f_write [] content = (None, content)"
| "f_write (s # ss) content =
     (if write_raises s then (Some UnicodeEncodeError, content)
      else f_write ss (content @ s))"

text \<open>
  \<open>write_vocab_to_file\<close>: an exception of the first loop leaves before the file is
  opened; \<open>open(path, "w")\<close> raises or empties the file; an exception of \<open>f.write\<close> leaves
  after the file is closed, without the \<open>print\<close> of line 168.
\<close>

definition write_vocab_to_file ::
  "pylib \<Rightarrow> config \<Rightarrow> json list \<Rightarrow> 's world \<Rightarrow> (exn + unit) \<times> 's world" where
  "write_vocab_to_file lib cfg cards w =
     (case valid_cards_loop lib cards [] w of
        (Inl e, w1) \<Rightarrow> (Inl e, w1)
      | (Inr valid_cards, w1) \<Rightarrow>
          if unwritable w1 (output_file cfg) then (Inl OSError, w1)
          else (case f_write (write_loop lib (length valid_cards) 1 valid_cards) [] of
                  (Some e, content) \<Rightarrow>
                    (Inl e, w1\<lparr>files := (files w1)(output_file cfg \<mapsto> content)\<rparr>)
                | (None, content) \<Rightarrow>
                    (Inr (),
                     py_print (WroteValidCards (length valid_cards) (output_file cfg))
                       (w1\<lparr>files := (files w1)(output_file cfg \<mapsto> content)\<rparr>))))"

section \<open>\<open>main\<close> and the whole run\<close>

text \<open>
  \<open>main\<close>, lines 170 to 191: every exception raised in its \<open>try\<close> is printed by the
  handler and \<open>main\<close> returns. \<open>None\<close>: one of the two loops ran out of fuel.
\<close>

definition main :: "nat \<Rightarrow> pylib \<Rightarrow> 's server \<Rightarrow> config \<Rightarrow> 's world \<Rightarrow> 's world option" where
  "main fuel lib srv cfg w =
     (case get_deck_id fuel lib srv cfg (deck_name cfg) (py_print (FetchingDeck (deck_name cfg)) w) of
        None \<Rightarrow> None
      | Some (Inl e, w2) \<Rightarrow> Some (py_print (ErrorMessage e) w2)
      | Some (Inr deck_id, w2) \<Rightarrow>
          (case get_cards fuel lib srv cfg deck_id (py_print FetchingCards w2) of
             None \<Rightarrow> None
           | Some (Inl e, w4) \<Rightarrow> Some (py_print (ErrorMessage e) w4)
           | Some (Inr cards, w4) \<Rightarrow>
               (let w5 = py_print (FoundCards (length cards)) w4 in
                if cards = [] then Some (py_print NoCardsFound w5)
                else case write_vocab_to_file lib cfg cards
                            (py_print (WritingTo (output_file cfg)) w5) of
                  (Inl e, w7) \<Rightarrow> Some (py_print (ErrorMessage e) w7)
                | (Inr u, w7) \<Rightarrow> Some (py_print (VocabularyExported (output_file cfg)) w7))))"

text \<open>
  The script from its first line to its last: the module-level configuration block, then
  \<open>main()\<close>. An exception nobody catches ends the process with a traceback and exit
  status 1; a \<open>main\<close> that returns ends it with status 0.
\<close>

datatype exit_status = Exit0 | Uncaught exn

definition program ::
  "nat \<Rightarrow> pylib \<Rightarrow> 's server \<Rightarrow> settings \<Rightarrow> 's world \<Rightarrow> (exit_status \<times> 's world) option" where
  "program fuel lib srv env w =
     (case load_config env w of
        (Inl e, w1) \<Rightarrow> Some (Uncaught e, w1)
      | (Inr cfg, w1) \<Rightarrow>
          (case main fuel lib srv cfg w1 of
             None \<Rightarrow> None
           | Some w2 \<Rightarrow> Some (Exit0, w2)))"

section \<open>Services, inputs and observations used in the statements\<close>

text \<open>A runtime, a configuration and an initial world to run the functions on.\<close>

definition example_lib :: pylib where
  "example_lib = \<lparr>str_lower = (\<lambda>s. s), reformat_iso = (\<lambda>s. Some s), str_of = (\<lambda>v. lit ''?''),
                   stdout_passes = (\<lambda>c. False)\<rparr>"

definition example_cfg :: config where
  "example_cfg = \<lparr>api_key = lit ''k'', api_base_url = lit ''http://m/api'', deck_name = lit ''Chinese'', output_file = lit ''out.txt''\<rparr>"

definition world0 :: "'s \<Rightarrow> 's world" where
  "world0 s = \<lparr>server = s, trace = [], files = (\<lambda>p. None), unwritable = (\<lambda>p. False)\<rparr>"

text \<open>A service that gives the same outcome to every request.\<close>

definition always :: "outcome \<Rightarrow> 's server" where
  "always r s url = (r, s)"

text \<open>
  A service that hands out a list of outcomes in order, one for each request, and refuses
  the connection once the list is used up.
\<close>

definition scripted :: "outcome list server" where
  "scripted s url = (case s of [] \<Rightarrow> (NetworkError, []) | r # rest \<Rightarrow> (r, rest))"

text \<open>
  A listing page \<open>{"docs": [...], "bookmark": "..."}\<close>, the bookmark absent when it is
  \<open>None\<close>, and the 200 response that carries it.
\<close>

definition page_json :: "json list \<Rightarrow> pystr option \<Rightarrow> json" where
  "page_json ds b =
     JObj ((lit ''docs'', JArr ds) # (case b of None \<Rightarrow> [] | Some c \<Rightarrow> [(lit ''bookmark'', JStr c)]))"

definition page_response :: "json list \<times> pystr option \<Rightarrow> outcome" where
  "page_response p = Response 200 [] (Some (page_json (fst p) (snd p)))"

text \<open>
  A page after which the loop of \<open>get_cards\<close> asks for another one: its \<open>docs\<close> are not
  empty and it has a bookmark that is not empty. \<open>next_cards_url\<close> is the URL line 87 builds
  from it, and \<open>cards_run\<close> what a run over a list of pages does, in order.
\<close>

definition more_follows :: "json list \<times> pystr option \<Rightarrow> bool" where
  "more_follows p = (fst p \<noteq> [] \<and> (case snd p of None \<Rightarrow> False | Some b \<Rightarrow> b \<noteq> []))"

definition next_cards_url :: "config \<Rightarrow> json list \<times> pystr option \<Rightarrow> pystr" where
  "next_cards_url cfg p =
     api_base_url cfg @ lit ''/cards?bookmark='' @ (case snd p of None \<Rightarrow> [] | Some b \<Rightarrow> b) @ lit ''&limit=100''"

fun cards_run :: "config \<Rightarrow> pystr \<Rightarrow> (json list \<times> pystr option) list \<Rightarrow> event list" where
  "cards_run cfg url [] = []"
| "cards_run cfg url (p # ps) =
     Get url # Print (FetchedCardsFromPage (length (fst p))) # cards_run cfg (next_cards_url cfg p) ps"

text \<open>The URLs requested and the seconds slept, read off a trace.\<close>

fun gets_of :: "event list \<Rightarrow> pystr list" where
  "gets_of [] = []"
| "gets_of (Get url # evs) = url # gets_of evs"
| "gets_of (Sleep n # evs) = gets_of evs"
| "gets_of (Print m # evs) = gets_of evs"

fun sleeps_of :: "event list \<Rightarrow> nat list" where
  "sleeps_of [] = []"
| "sleeps_of (Get url # evs) = sleeps_of evs"
| "sleeps_of (Sleep n # evs) = n # sleeps_of evs"
| "sleeps_of (Print m # evs) = sleeps_of evs"

text \<open>
  For the deck listing: a deck object with its name and identifier, the URL line 54 builds
  from a page, what a run of \<open>get_deck_id\<close> over a list of pages requests, the URL it holds
  after the last of them, and a page on which the scan finds no deck of the wanted name.
\<close>

definition deck_json :: "pystr \<times> pystr \<Rightarrow> json" where
  "deck_json d = JObj [(lit ''id'', JStr (snd d)), (lit ''name'', JStr (fst d))]"

definition next_decks_url :: "config \<Rightarrow> json list \<times> pystr option \<Rightarrow> pystr" where
  "next_decks_url cfg p =
     api_base_url cfg @ lit ''/decks?bookmark='' @ (case snd p of None \<Rightarrow> [] | Some b \<Rightarrow> b)"

fun decks_run :: "config \<Rightarrow> pystr \<Rightarrow> (json list \<times> pystr option) list \<Rightarrow> event list" where
  "decks_run cfg url [] = []"
| "decks_run cfg url (p # ps) = Get url # decks_run cfg (next_decks_url cfg p) ps"

fun last_url :: "config \<Rightarrow> pystr \<Rightarrow> (json list \<times> pystr option) list \<Rightarrow> pystr" where
  "last_url cfg url [] = url"
| "last_url cfg url [p] = url"
| "last_url cfg url (p # q # ps) = last_url cfg (next_decks_url cfg p) (q # ps)"

definition no_match :: "pylib \<Rightarrow> pystr \<Rightarrow> json list \<times> pystr option \<Rightarrow> bool" where
  "no_match lib wanted p = (find_deck lib wanted (fst p) = Inr None)"

text \<open>Two pages of decks, neither with the deck \<open>Chinese\<close>.\<close>

definition two_deck_pages :: "(json list \<times> pystr option) list" where
  "two_deck_pages =
     [([deck_json (lit ''Japanese'', lit ''J1'')], Some (lit ''B1'')),
      ([deck_json (lit ''Korean'', lit ''K1'')], None)]"

text \<open>
  \<open>split_at sep xs\<close> cuts a list at every \<open>sep\<close>. The query parameters of a URL are the
  text after its first \<open>?\<close> (code point 63), cut at \<open>&\<close> (code point 38).
\<close>

fun split_at :: "'a \<Rightarrow> 'a list \<Rightarrow> 'a list list" where
  "split_at sep [] = [[]]"
| "split_at sep (c # cs) =
     (if c = sep then [] # split_at sep cs
      else case split_at sep cs of [] \<Rightarrow> [[c]] | x # xs \<Rightarrow> (c # x) # xs)"

definition query_params :: "pystr \<Rightarrow> pystr list" where
  "query_params url = split_at 38 (drop 1 (dropWhile (\<lambda>c. c \<noteq> 63) url))"

text \<open>Two pages of cards: the first with a bookmark, the second the last one.\<close>

definition two_pages :: "(json list \<times> pystr option) list" where
  "two_pages = [([JStr (lit ''c1''), JStr (lit ''c2'')], Some (lit ''B1'')), ([JStr (lit ''c3'')], None)]"

text \<open>
  Two responses: a page of cards that is the last one, and a page of decks that has the deck
  \<open>Chinese\<close>, with the identifier \<open>D1\<close>.
\<close>

definition one_card_page :: outcome where
  "one_card_page = page_response ([JStr (lit ''c1'')], None)"

definition chinese_deck_page :: outcome where
  "chinese_deck_page = Response 200 []
     (Some (JObj [(lit ''docs'',
        JArr [JObj [(lit ''name'', JStr (lit ''Chinese'')), (lit ''id'', JStr (lit ''D1''))]])]))"

text \<open>
  Three cards: the example of the specification (hanzi and pinyin as code points), a card
  whose field has a \<open>V\<close> inside a word, and a parsed record whose meaning has a line
  \<open>---\<close> of its own.
\<close>

definition spec_card :: json where
  "spec_card = JObj
     [(lit ''component-cache'',
         JObj [(lit ''pinyin'',
           JObj [(lit ''a'', JObj [(lit ''text'',
             JStr [123, 27809, 125, 40, 109, 233, 105, 41, 32, 123, 86, 125, 40, 86, 41])])])]),
      (lit ''fields'',
         JObj [(lit ''name'', JObj [(lit ''value'', JStr (lit ''x''))]),
               (lit ''f1'', JObj [(lit ''value'', JStr [27809, 32, 86])])]),
      (lit ''name'', JStr (lit ''not'')),
      (lit ''created-at'', JObj [(lit ''date'', JStr (lit ''2023-01-01T10:00:00Z''))])]"

definition dvd_card :: json where
  "dvd_card = JObj
     [(lit ''fields'', JObj [(lit ''f1'', JObj [(lit ''value'', JStr (lit ''DVD''))])]),
      (lit ''name'', JStr (lit ''disc''))]"

definition tricky :: parsed where
  "tricky = \<lparr>pinyin = lit ''a'', hanzi = lit ''b'',
             meaning = JStr (lit ''x'' @ [10] @ lit ''---'' @ [10] @ lit ''y''), added = JStr []\<rparr>"

text \<open>
  A record can be written when none of its four texts holds a lone surrogate. Two cards
  with the lone surrogate U+D83D, the first half of an emoji: one that has nothing to
  extract, and one that has it as its hanzi.
\<close>

definition encodable :: "pylib \<Rightarrow> parsed \<Rightarrow> bool" where
  "encodable lib p =
     (\<not> write_raises (pinyin p) \<and> \<not> write_raises (hanzi p) \<and>
      \<not> write_raises (fmt lib (meaning p)) \<and> \<not> write_raises (fmt lib (added p)))"

definition unprintable_card :: json where
  "unprintable_card = JObj [(lit ''content'', JStr [55357])]"

definition surrogate_card :: json where
  "surrogate_card = JObj
     [(lit ''fields'', JObj [(lit ''f1'', JObj [(lit ''value'', JStr [55357])])]),
      (lit ''name'', JStr (lit ''smile''))]"

text \<open>The settings with and without the API key; the other fields take their defaults.\<close>

definition env_with_key :: settings where
  "env_with_key = \<lparr>MOCHI_API_KEY = Some (lit ''secret-key''), MOCHI_API_BASE_URL = None,
                   MOCHI_DECK_NAME = None, MOCHI_OUTPUT_FILE = None\<rparr>"

definition env_without_key :: settings where
  "env_without_key = \<lparr>MOCHI_API_KEY = None, MOCHI_API_BASE_URL = None,
                   MOCHI_DECK_NAME = None, MOCHI_OUTPUT_FILE = None\<rparr>"

text \<open>The characters that are neither a \<open>V\<close> nor whitespace.\<close>

definition kept :: "nat \<Rightarrow> bool" where
  "kept c = (c \<noteq> 86 \<and> \<not> isspace c)"

text \<open>
  Reading the output file back, following the specification's words: the file is read line
  by line (a line ends at a line feed), the lines equal to \<open>---\<close> separate the blocks, and a
  block gives a record when it is the four labelled lines, each with its label taken off.
  An empty file has no block. \<open>labelled_lines\<close> are the four lines of a record,
  \<open>single_line\<close> says that none of its four texts has a line feed in it, and
  \<open>join_blocks\<close> puts blocks together with a separator line between them.
\<close>

definition labelled_lines :: "pylib \<Rightarrow> parsed \<Rightarrow> pystr list" where
  "labelled_lines lib p =
     [lit ''Pinyin: '' @ pinyin p, lit ''Hanzi: '' @ hanzi p,
      lit ''Meaning: '' @ fmt lib (meaning p), lit ''Added: '' @ fmt lib (added p)]"

definition single_line :: "pylib \<Rightarrow> parsed \<Rightarrow> bool" where
  "single_line lib p =
     (10 \<notin> set (pinyin p) \<and> 10 \<notin> set (hanzi p) \<and>
      10 \<notin> set (fmt lib (meaning p)) \<and> 10 \<notin> set (fmt lib (added p)))"

fun lines_of :: "pystr \<Rightarrow> pystr list" where
  "lines_of [] = []"
| "lines_of (c # cs) =
     (if c = 10 then [] # lines_of cs
      else case lines_of cs of [] \<Rightarrow> [[c]] | l # ls \<Rightarrow> (c # l) # ls)"

definition strip_label :: "pystr \<Rightarrow> pystr \<Rightarrow> pystr option" where
  "strip_label label l = (if take (length label) l = label then Some (drop (length label) l) else None)"

fun read_block :: "pystr list \<Rightarrow> (pystr \<times> pystr \<times> pystr \<times> pystr) option" where
  "read_block [a, b, c, d] =
     (case strip_label (lit ''Pinyin: '') a of None \<Rightarrow> None | Some p \<Rightarrow>
      case strip_label (lit ''Hanzi: '') b of None \<Rightarrow> None | Some h \<Rightarrow>
      case strip_label (lit ''Meaning: '') c of None \<Rightarrow> None | Some m \<Rightarrow>
      case strip_label (lit ''Added: '') d of None \<Rightarrow> None | Some ad \<Rightarrow> Some (p, h, m, ad))"
| "read_block ls = None"

definition read_back :: "pystr \<Rightarrow> (pystr \<times> pystr \<times> pystr \<times> pystr) option list" where
  "read_back content =
     (if content = [] then [] else map read_block (split_at (lit ''---'') (lines_of content)))"

fun join_blocks :: "pystr list list \<Rightarrow> pystr list" where
  "join_blocks [] = []"
| "join_blocks [b] = b"
| "join_blocks (b # b' # bs) = b @ lit ''---'' # join_blocks (b' # bs)"

section \<open>Lemmas on the loops\<close>

lemma retries_upt: "[0..<retries] = [0, 1, 2]"
  by (simp add: retries_def upt_rec)

lemmas world_ops = client_get_def emit_def py_print_def sleep_def print_all_def

lemma py_index_not_found: "py_index d k \<noteq> Inl (DeckNotFound n)"
  by (cases d) (auto split: option.splits)

lemma py_lower_not_found: "py_lower lib d \<noteq> Inl (DeckNotFound n)"
  by (cases d) auto

lemma py_get_not_found: "py_get d k x \<noteq> Inl (DeckNotFound n)"
  by (cases d) auto

lemma py_iter_not_found: "py_iter d \<noteq> Inl (DeckNotFound n)"
  by (cases d) auto

lemma find_deck_not_found: "find_deck lib wanted ds \<noteq> Inl (DeckNotFound n)"
  by (induction ds) (auto split: sum.splits simp: py_index_not_found py_lower_not_found)

lemma decks_response_not_found:
  "decks_response lib cfg wanted url st txt body \<noteq> Inl (DeckNotFound n)"
  by (auto simp: decks_response_def after_def py_get_not_found py_iter_not_found find_deck_not_found
      split: sum.splits option.splits)

lemma decks_response_break:
  "decks_response lib cfg wanted url st txt body = Inr (DeckBreak u) \<Longrightarrow> url \<noteq> [] \<Longrightarrow> u \<noteq> []"
  by (auto simp: decks_response_def after_def lit_def split: sum.splits option.splits if_splits)

lemma decks_attempts_inv:
  "decks_attempts lib srv cfg wanted url atts w = (r, w') \<Longrightarrow> url \<noteq> [] \<Longrightarrow>
     r \<noteq> Inl (DeckNotFound n) \<and> (\<forall>u. r = Inr (DeckBreak u) \<longrightarrow> u \<noteq> [])"
proof (induction atts arbitrary: w)
  case Nil
  then show ?case by auto
next
  case (Cons a atts)
  obtain o1 w1 where g: "client_get srv url w = (o1, w1)" by (cases "client_get srv url w")
  show ?case
  proof (cases o1)
    case ReadTimeout
    with Cons g show ?thesis by (auto split: if_splits)
  next
    case NetworkError
    with Cons g show ?thesis by auto
  next
    case (Response st tx body)
    with Cons g show ?thesis
      by (auto simp: decks_response_not_found dest: decks_response_break)
  qed
qed

lemma get_deck_id_loop_not_found:
  "get_deck_id_loop fuel lib srv cfg wanted url w = Some (r, w') \<Longrightarrow> url \<noteq> [] \<Longrightarrow> r \<noteq> Inl (DeckNotFound n)"
proof (induction fuel arbitrary: url w)
  case 0
  then show ?case by simp
next
  case (Suc fuel)
  obtain r1 w1 where a: "decks_attempts lib srv cfg wanted url [0..<retries] w = (r1, w1)"
    by (cases "decks_attempts lib srv cfg wanted url [0..<retries] w")
  from decks_attempts_inv [OF a Suc.prems(2)]
  have i: "r1 \<noteq> Inl (DeckNotFound n)" "\<And>u. r1 = Inr (DeckBreak u) \<Longrightarrow> u \<noteq> []" by auto
  show ?case
  proof (cases r1)
    case (Inl e)
    with Suc.prems a i show ?thesis by auto
  next
    case (Inr st)
    show ?thesis
    proof (cases st)
      case (DeckReturn x)
      with Inr Suc.prems a show ?thesis by auto
    next
      case (DeckBreak u)
      with Inr i have "u \<noteq> []" by simp
      moreover from DeckBreak Inr Suc.prems a have "get_deck_id_loop fuel lib srv cfg wanted u w1 = Some (r, w')" by simp
      ultimately show ?thesis using Suc.IH by blast
    qed
  qed
qed

lemma get_deck_id_never_not_found:
  "get_deck_id fuel lib srv cfg wanted w \<noteq> Some (Inl (DeckNotFound n), w')"
  using get_deck_id_loop_not_found [of fuel lib srv cfg wanted "api_base_url cfg @ lit ''/decks''" w "Inl (DeckNotFound n)" w' n]
  by (auto simp: get_deck_id_def lit_def)

lemma lone_page_step:
  "find_deck lib wanted ds = Inr None \<Longrightarrow>
   decks_attempts lib (always (Response 200 txt (Some (JObj [(lit ''docs'', JArr ds)])))) cfg wanted url (a # atts) w
     = (Inr (DeckBreak url), emit (Get url) w)"
  by (simp add: world_ops always_def decks_response_def after_def lit_def)

lemma lone_page_loop:
  "find_deck lib wanted ds = Inr None \<Longrightarrow> url \<noteq> [] \<Longrightarrow>
   get_deck_id_loop fuel lib (always (Response 200 txt (Some (JObj [(lit ''docs'', JArr ds)])))) cfg wanted url w = None"
  by (induction fuel arbitrary: w) (simp_all add: retries_upt lone_page_step del: decks_attempts.simps)

lemma lit_docs_bookmark: "lit ''docs'' \<noteq> lit ''bookmark''" "lit ''bookmark'' \<noteq> lit ''docs''"
  by (simp_all add: lit_def)

lemma cards_page_step:
  assumes "server w = page_response p # rest"
  shows "cards_attempts lib scripted cfg cards url (a # atts) w =
     (if more_follows p then Inr (CardsBreak (next_cards_url cfg p) (cards @ fst p))
      else Inr (CardsReturn (cards @ fst p)),
      w\<lparr>server := rest, trace := trace w @ [Get url, Print (FetchedCardsFromPage (length (fst p)))]\<rparr>)"
  using assms
  by (cases p; cases "snd p")
     (auto simp: world_ops scripted_def page_response_def page_json_def cards_response_def
        more_follows_def next_cards_url_def lit_docs_bookmark Let_def)

lemma cards_scripted_run:
  "pages \<noteq> [] \<Longrightarrow> list_all more_follows (butlast pages) \<Longrightarrow> \<not> more_follows (last pages) \<Longrightarrow>
   url \<noteq> [] \<Longrightarrow> server w = map page_response pages @ rest \<Longrightarrow>
   get_cards_loop (length pages + k) lib scripted cfg cards url w =
     Some (Inr (cards @ concat (map fst pages)),
           w\<lparr>server := rest, trace := trace w @ cards_run cfg url pages\<rparr>)"
proof (induction pages arbitrary: cards url w)
  case Nil
  then show ?case by simp
next
  case (Cons p ps)
  have srv: "server w = page_response p # (map page_response ps @ rest)" using Cons.prems by simp
  note step = cards_page_step [OF srv, of lib cfg cards url 0 "[1, 2]"]
  show ?case
  proof (cases "ps = []")
    case True
    with Cons.prems have "\<not> more_follows p" by simp
    with True step Cons.prems show ?thesis by (simp add: retries_upt)
  next
    case False
    with Cons.prems have mf: "more_follows p" and rest: "list_all more_follows (butlast ps)" "\<not> more_follows (last ps)"
      by simp_all
    have nu: "next_cards_url cfg p \<noteq> []" by (simp add: next_cards_url_def lit_def)
    let ?w1 = "w\<lparr>server := map page_response ps @ rest, trace := trace w @ [Get url, Print (FetchedCardsFromPage (length (fst p)))]\<rparr>"
    have "get_cards_loop (length ps + k) lib scripted cfg (cards @ fst p) (next_cards_url cfg p) ?w1 =
       Some (Inr ((cards @ fst p) @ concat (map fst ps)),
           ?w1\<lparr>server := rest, trace := trace ?w1 @ cards_run cfg (next_cards_url cfg p) ps\<rparr>)"
      by (rule Cons.IH [OF False rest nu]) simp
    with mf step Cons.prems show ?thesis by (simp add: retries_upt)
  qed
qed

lemma gets_of_cards_run:
  "gets_of (cards_run cfg url pages) = (if pages = [] then [] else url # map (next_cards_url cfg) (butlast pages))"
  by (induction pages arbitrary: url) auto

lemma gets_of_append: "gets_of (xs @ ys) = gets_of xs @ gets_of ys"
  by (induction xs rule: gets_of.induct) auto

lemma length_gets_cards_run: "length (gets_of (cards_run cfg url pages)) = length pages"
  by (induction pages arbitrary: url) auto

lemma lit_id_name: "lit ''id'' \<noteq> lit ''name''" "lit ''name'' \<noteq> lit ''id''"
  by (simp_all add: lit_def)

lemma find_deck_well_formed:
  "find_deck lib wanted (map deck_json ds) =
     Inr (map_option (\<lambda>d. JStr (snd d)) (find (\<lambda>d. str_lower lib (fst d) = str_lower lib wanted) ds))"
  by (induction ds) (simp_all add: deck_json_def lit_id_name)

lemma decks_page_step:
  assumes "server w = page_response p # rest"
  shows "decks_attempts lib scripted cfg wanted url (a # atts) w =
     (case find_deck lib wanted (fst p) of
        Inl e \<Rightarrow> Inl e
      | Inr (Some deck_id) \<Rightarrow> Inr (DeckReturn deck_id)
      | Inr None \<Rightarrow> Inr (DeckBreak (if more_follows p then next_decks_url cfg p else url)),
      w\<lparr>server := rest, trace := trace w @ [Get url]\<rparr>)"
  using assms
  by (cases p; cases "snd p"; cases "find_deck lib wanted (fst p)")
     (auto simp: world_ops scripted_def page_response_def page_json_def decks_response_def after_def
        more_follows_def next_decks_url_def lit_docs_bookmark split: option.splits)

lemma decks_scripted_absent:
  "pages \<noteq> [] \<Longrightarrow> list_all (no_match lib wanted) pages \<Longrightarrow>
   list_all more_follows (butlast pages) \<Longrightarrow> \<not> more_follows (last pages) \<Longrightarrow>
   url \<noteq> [] \<Longrightarrow> server w = map page_response pages @ rest \<Longrightarrow>
   get_deck_id_loop (length pages + k) lib scripted cfg wanted url w =
     get_deck_id_loop k lib scripted cfg wanted (last_url cfg url pages)
       (w\<lparr>server := rest, trace := trace w @ decks_run cfg url pages\<rparr>)"
proof (induction pages arbitrary: url w)
  case Nil
  then show ?case by simp
next
  case (Cons p ps)
  have srv: "server w = page_response p # (map page_response ps @ rest)" using Cons.prems by simp
  have nm: "find_deck lib wanted (fst p) = Inr None" using Cons.prems by (simp add: no_match_def)
  note step = decks_page_step [OF srv, of lib cfg wanted url 0 "[1, 2]"]
  show ?case
  proof (cases ps)
    case Nil
    with Cons.prems have "\<not> more_follows p" by simp
    with Nil step nm Cons.prems show ?thesis by (simp add: retries_upt)
  next
    case (Cons q qs)
    with Cons.prems have mf: "more_follows p" and rest: "list_all (no_match lib wanted) ps"
      "list_all more_follows (butlast ps)" "\<not> more_follows (last ps)" and ne: "ps \<noteq> []"
      by simp_all
    have nu: "next_decks_url cfg p \<noteq> []" by (simp add: next_decks_url_def lit_def)
    let ?w1 = "w\<lparr>server := map page_response ps @ rest, trace := trace w @ [Get url]\<rparr>"
    have "get_deck_id_loop (length ps + k) lib scripted cfg wanted (next_decks_url cfg p) ?w1 =
       get_deck_id_loop k lib scripted cfg wanted (last_url cfg (next_decks_url cfg p) ps)
         (?w1\<lparr>server := rest, trace := trace ?w1 @ decks_run cfg (next_decks_url cfg p) ps\<rparr>)"
      by (rule Cons.IH [OF ne rest nu]) simp
    with mf step nm Cons.prems Cons show ?thesis by (simp add: retries_upt)
  qed
qed

lemma decks_scripted_found:
  "list_all (no_match lib wanted) pages \<Longrightarrow> list_all more_follows pages \<Longrightarrow>
   find_deck lib wanted (fst p) = Inr (Some deck_id) \<Longrightarrow>
   url \<noteq> [] \<Longrightarrow> server w = map page_response (pages @ [p]) @ rest \<Longrightarrow>
   get_deck_id_loop (Suc (length pages) + k) lib scripted cfg wanted url w =
     Some (Inr deck_id, w\<lparr>server := rest, trace := trace w @ decks_run cfg url (pages @ [p])\<rparr>)"
proof (induction pages arbitrary: url w)
  case Nil
  then have srv: "server w = page_response p # rest" by simp
  from decks_page_step [OF srv, of lib cfg wanted url 0 "[1, 2]"] Nil show ?case
    by (simp add: retries_upt)
next
  case (Cons q qs)
  have srv: "server w = page_response q # (map page_response (qs @ [p]) @ rest)" using Cons.prems by simp
  have nm: "find_deck lib wanted (fst q) = Inr None" and mf: "more_follows q"
    using Cons.prems by (simp_all add: no_match_def)
  note step = decks_page_step [OF srv, of lib cfg wanted url 0 "[1, 2]"]
  have nu: "next_decks_url cfg q \<noteq> []" by (simp add: next_decks_url_def lit_def)
  let ?w1 = "w\<lparr>server := map page_response (qs @ [p]) @ rest, trace := trace w @ [Get url]\<rparr>"
  have "get_deck_id_loop (Suc (length qs) + k) lib scripted cfg wanted (next_decks_url cfg q) ?w1 =
     Some (Inr deck_id, ?w1\<lparr>server := rest, trace := trace ?w1 @ decks_run cfg (next_decks_url cfg q) (qs @ [p])\<rparr>)"
    using Cons.prems nu by (intro Cons.IH) simp_all
  with mf step nm Cons.prems(4) show ?case by (simp add: retries_upt)
qed

section \<open>Lemmas on \<open>parse_card\<close>, the writer and the files\<close>

lemma isspace_V: "\<not> isspace 86"
  by (simp add: isspace_def)

lemma sub_V_Cons:
  "dropWhile isspace (c # cs) = [] \<Longrightarrow> sub_V (c # cs) = c # sub_V cs"
  "dropWhile isspace (c # cs) = v # rest \<Longrightarrow> v = 86 \<Longrightarrow> sub_V (c # cs) = sub_V (dropWhile isspace rest)"
  "dropWhile isspace (c # cs) = v # rest \<Longrightarrow> v \<noteq> 86 \<Longrightarrow> sub_V (c # cs) = c # sub_V cs"
  by (simp_all only: sub_V.simps list.case if_True if_False simp_thms)

lemma kept_head:
  "dropWhile isspace (c # cs) = [] \<or> (dropWhile isspace (c # cs) = v # rest \<and> v \<noteq> 86) \<Longrightarrow> c \<noteq> 86"
  using isspace_V by (cases "isspace c") auto

lemma sub_V_no_V: "86 \<notin> set (sub_V s)"
proof (induction s rule: sub_V.induct)
  case 1
  show ?case by simp
next
  case (2 c cs)
  show ?case
  proof (cases "dropWhile isspace (c # cs)")
    case Nil
    from kept_head [of c cs] Nil have "c \<noteq> 86" by blast
    with "2.IH"(1) [OF Nil] show ?thesis unfolding sub_V_Cons(1) [OF Nil] by simp
  next
    case (Cons v rest)
    show ?thesis
    proof (cases "v = 86")
      case True
      from "2.IH"(2) [OF Cons True] show ?thesis unfolding sub_V_Cons(2) [OF Cons True] .
    next
      case False
      from kept_head [of c cs v rest] Cons False have "c \<noteq> 86" by blast
      with "2.IH"(3) [OF Cons False] show ?thesis unfolding sub_V_Cons(3) [OF Cons False] by simp
    qed
  qed
qed

lemma filter_kept_spaces: "filter kept (takeWhile isspace s) = []"
  by (induction s) (auto simp: kept_def)

lemma filter_kept_dropWhile: "filter kept (dropWhile isspace s) = filter kept s"
proof -
  have "filter kept s = filter kept (takeWhile isspace s @ dropWhile isspace s)" by simp
  also have "\<dots> = filter kept (dropWhile isspace s)"
    unfolding filter_append filter_kept_spaces by simp
  finally show ?thesis by simp
qed

lemma sub_V_keeps: "filter kept (sub_V s) = filter kept s"
proof (induction s rule: sub_V.induct)
  case 1
  show ?case by simp
next
  case (2 c cs)
  show ?case
  proof (cases "dropWhile isspace (c # cs)")
    case Nil
    from "2.IH"(1) [OF Nil] show ?thesis unfolding sub_V_Cons(1) [OF Nil] by simp
  next
    case (Cons v rest)
    show ?thesis
    proof (cases "v = 86")
      case True
      have "filter kept (c # cs) = filter kept (dropWhile isspace (c # cs))"
        by (rule filter_kept_dropWhile [symmetric])
      also have "\<dots> = filter kept rest" unfolding Cons using True by (simp add: kept_def)
      also have "\<dots> = filter kept (dropWhile isspace rest)" by (rule filter_kept_dropWhile [symmetric])
      finally show ?thesis using "2.IH"(2) [OF Cons True] unfolding sub_V_Cons(2) [OF Cons True] by simp
    next
      case False
      from "2.IH"(3) [OF Cons False] show ?thesis unfolding sub_V_Cons(3) [OF Cons False] by simp
    qed
  qed
qed

lemma sub_V_id: "86 \<notin> set s \<Longrightarrow> sub_V s = s"
proof (induction s rule: sub_V.induct)
  case 1
  show ?case by simp
next
  case (2 c cs)
  then have cs: "86 \<notin> set cs" by simp
  show ?case
  proof (cases "dropWhile isspace (c # cs)")
    case Nil
    from "2.IH"(1) [OF Nil cs] show ?thesis unfolding sub_V_Cons(1) [OF Nil] by simp
  next
    case (Cons v rest)
    have "v \<in> set (dropWhile isspace (c # cs))" unfolding Cons by simp
    then have "v \<in> set (c # cs)" by (rule set_dropWhileD)
    with "2.prems" have nv: "v \<noteq> 86" by auto
    from "2.IH"(3) [OF Cons nv cs] show ?thesis unfolding sub_V_Cons(3) [OF Cons nv] by simp
  qed
qed

lemma py_strip_keeps: "filter kept (py_strip s) = filter kept s"
proof -
  have "filter kept (py_strip s) = rev (filter kept (dropWhile isspace (rev (dropWhile isspace s))))"
    by (simp add: py_strip_def rev_filter)
  also have "\<dots> = rev (filter kept (rev (dropWhile isspace s)))" by (simp add: filter_kept_dropWhile)
  also have "\<dots> = filter kept (dropWhile isspace s)" by (simp add: rev_filter)
  finally show ?thesis by (simp add: filter_kept_dropWhile)
qed

lemma py_strip_subset: "x \<in> set (py_strip s) \<Longrightarrow> x \<in> set s"
proof -
  assume "x \<in> set (py_strip s)"
  then have "x \<in> set (dropWhile isspace (rev (dropWhile isspace s)))" by (simp add: py_strip_def)
  then have "x \<in> set (rev (dropWhile isspace s))" by (rule set_dropWhileD)
  then have "x \<in> set (dropWhile isspace s)" by simp
  then show ?thesis by (rule set_dropWhileD)
qed

lemma after_Inr: "after r f = Inr y \<longleftrightarrow> (\<exists>x. r = Inr x \<and> f x = Inr y)"
  by (cases r) (auto simp: after_def)

lemma after_Inl: "after r f = Inl e \<longleftrightarrow> (r = Inl e \<or> (\<exists>x. r = Inr x \<and> f x = Inl e))"
  by (cases r) (auto simp: after_def)

lemma py_items_Inr: "py_items v = Inr kvs \<longleftrightarrow> v = JObj kvs"
  by (cases v) auto

lemma py_get_Inr: "py_get v k d = Inr x \<Longrightarrow> \<exists>kvs. v = JObj kvs"
  by (cases v) auto

lemma re_sub_V_Inr: "re_sub_V v = Inr s \<longleftrightarrow> (\<exists>t. v = JStr t \<and> s = sub_V t)"
  by (cases v) auto

lemma scan_hanzi_find:
  "scan_hanzi fs = Inr h \<Longrightarrow>
     (case find (\<lambda>kv. fst kv \<noteq> lit ''name'') fs of
        None \<Rightarrow> h = []
      | Some kv \<Rightarrow> (\<exists>v. py_get (snd kv) (lit ''value'') (JStr []) = Inr (JStr v) \<and> h = py_strip (sub_V v)))"
  by (induction fs) (auto split: sum.splits simp: re_sub_V_Inr)

lemma parse_card_Some:
  "parse_card lib crd = (Inr (Some r), msgs) \<Longrightarrow>
     extract_pinyin crd = Inr (pinyin r) \<and> extract_hanzi crd = Inr (hanzi r) \<and>
     extract_meaning crd = Inr (meaning r) \<and> extract_added lib crd = Inr (added r) \<and> msgs = []"
  by (auto simp: parse_card_def parse_card_try_def after_def split: sum.splits option.splits if_splits)

lemma parse_card_printable:
  "\<not> card_print_raises lib crd \<Longrightarrow> \<exists>r. fst (parse_card lib crd) = Inr r"
  by (auto simp: parse_card_def split: sum.splits option.splits)

lemma print_all_Nil: "print_all [] w = w"
  by (simp add: print_all_def)

lemma print_all_append: "print_all (ms @ ns) w = print_all ns (print_all ms w)"
  by (simp add: print_all_def)

lemma valid_cards_all:
  "list_all (\<lambda>c. \<not> card_print_raises lib c) cards \<Longrightarrow>
   valid_cards_loop lib cards valid w =
       (Inr (valid @ concat (map (\<lambda>c. case fst (parse_card lib c) of
                                        Inr (Some r) \<Rightarrow> [r] | Inr None \<Rightarrow> [] | Inl e \<Rightarrow> []) cards)),
        print_all (concat (map (\<lambda>c. snd (parse_card lib c)) cards)) w)"
proof (induction cards arbitrary: valid w)
  case Nil
  show ?case by (simp add: print_all_Nil)
next
  case (Cons c cards)
  then have ok: "list_all (\<lambda>c. \<not> card_print_raises lib c) cards" and "\<not> card_print_raises lib c"
    by simp_all
  then obtain r where r: "fst (parse_card lib c) = Inr r"
    using parse_card_printable by blast
  obtain msgs where m: "parse_card lib c = (Inr r, msgs)"
    using r by (cases "parse_card lib c") simp
  show ?case
    by (cases r) (simp_all add: m Cons.IH [OF ok] print_all_append)
qed

lemma valid_cards_loop_append:
  "valid_cards_loop lib (xs @ ys) valid w =
     (case valid_cards_loop lib xs valid w of
        (Inl e, w1) \<Rightarrow> (Inl e, w1)
      | (Inr vs, w1) \<Rightarrow> valid_cards_loop lib ys vs w1)"
proof (induction xs arbitrary: valid w)
  case Nil
  show ?case by simp
next
  case (Cons c xs)
  obtain x msgs where m: "parse_card lib c = (x, msgs)" by (cases "parse_card lib c")
  show ?case
  proof (cases x)
    case (Inl e)
    with m show ?thesis by simp
  next
    case (Inr opt)
    with m show ?thesis by (cases opt) (simp_all add: Cons.IH)
  qed
qed

lemma valid_cards_loop_keeps:
  "valid_cards_loop lib cards valid w = (r, w1) \<Longrightarrow>
     unwritable w1 = unwritable w \<and> files w1 = files w \<and> server w1 = server w"
proof (induction cards arbitrary: valid w)
  case Nil
  then show ?case by auto
next
  case (Cons c cards)
  obtain x msgs where m: "parse_card lib c = (x, msgs)" by (cases "parse_card lib c")
  show ?case
  proof (cases x)
    case (Inl e)
    with Cons.prems m show ?thesis by (auto simp: print_all_def)
  next
    case (Inr opt)
    show ?thesis
    proof (cases opt)
      case None
      with Cons.prems m Inr
      have "valid_cards_loop lib cards valid (print_all msgs w) = (r, w1)" by simp
      from Cons.IH [OF this] show ?thesis by (simp add: print_all_def)
    next
      case (Some q)
      with Cons.prems m Inr
      have "valid_cards_loop lib cards (valid @ [q]) (print_all msgs w) = (r, w1)" by simp
      from Cons.IH [OF this] show ?thesis by (simp add: print_all_def)
    qed
  qed
qed

lemma lines_of_line: "10 \<notin> set a \<Longrightarrow> lines_of (a @ 10 # rest) = a # lines_of rest"
  by (induction a) auto

lemma lines_of_record:
  assumes "single_line lib p"
  shows "lines_of (concat (record_lines lib p) @ rest) = labelled_lines lib p @ lines_of rest"
proof -
  have l: "10 \<notin> set (lit ''Pinyin: '' @ pinyin p)" "10 \<notin> set (lit ''Hanzi: '' @ hanzi p)"
    "10 \<notin> set (lit ''Meaning: '' @ fmt lib (meaning p))" "10 \<notin> set (lit ''Added: '' @ fmt lib (added p))"
    using assms by (simp_all add: single_line_def lit_def)
  have "concat (record_lines lib p) @ rest =
      (lit ''Pinyin: '' @ pinyin p) @ 10 # (lit ''Hanzi: '' @ hanzi p) @ 10 #
      (lit ''Meaning: '' @ fmt lib (meaning p)) @ 10 # (lit ''Added: '' @ fmt lib (added p)) @ 10 # rest"
    by (simp add: record_lines_def)
  then show ?thesis
    by (simp only: lines_of_line [OF l(1)] lines_of_line [OF l(2)] lines_of_line [OF l(3)]
          lines_of_line [OF l(4)] labelled_lines_def append_Cons append_Nil)
qed

lemma lines_of_sep: "lines_of (lit ''---'' @ 10 # rest) = lit ''---'' # lines_of rest"
  by (rule lines_of_line) (simp add: lit_def)

lemma lines_of_write_loop:
  "list_all (single_line lib) rs \<Longrightarrow> i + length rs = Suc n \<Longrightarrow>
     lines_of (concat (write_loop lib n i rs)) = join_blocks (map (labelled_lines lib) rs)"
proof (induction rs arbitrary: i)
  case Nil
  show ?case by simp
next
  case (Cons p ps)
  then have sl: "single_line lib p" by simp
  show ?case
  proof (cases ps)
    case Nil
    with Cons.prems have "\<not> i < n" by simp
    with Nil lines_of_record [OF sl, of "[]"] show ?thesis by simp
  next
    case (Cons p' ps')
    with Cons.prems have lt: "i < n" by simp
    have "lines_of (concat (write_loop lib n (Suc i) ps)) = join_blocks (map (labelled_lines lib) ps)"
      using Cons.prems by (intro Cons.IH) simp_all
    with lt Cons show ?thesis
      by (simp add: lines_of_record [OF sl] lines_of_sep)
  qed
qed

lemma split_at_plain: "sep \<notin> set b \<Longrightarrow> split_at sep b = [b]"
  by (induction b) auto

lemma split_at_block: "sep \<notin> set b \<Longrightarrow> split_at sep (b @ sep # rest) = b # split_at sep rest"
  by (induction b) auto

lemma split_at_join:
  "bs \<noteq> [] \<Longrightarrow> list_all (\<lambda>b. lit ''---'' \<notin> set b) bs \<Longrightarrow> split_at (lit ''---'') (join_blocks bs) = bs"
  by (induction bs rule: join_blocks.induct) (simp_all add: split_at_plain split_at_block)

lemma labelled_no_sep: "lit ''---'' \<notin> set (labelled_lines lib p)"
  by (simp add: labelled_lines_def lit_def)

lemma strip_label_append: "strip_label label (label @ x) = Some x"
  by (simp add: strip_label_def)

lemma read_block_labelled:
  "read_block (labelled_lines lib p) = Some (pinyin p, hanzi p, fmt lib (meaning p), fmt lib (added p))"
  by (simp add: labelled_lines_def strip_label_append)

lemma write_loop_nonempty: "rs \<noteq> [] \<Longrightarrow> concat (write_loop lib n i rs) \<noteq> []"
  by (cases rs) (simp_all add: record_lines_def lit_def)

lemma write_loop_snoc:
  "i + length rs = n \<Longrightarrow>
   write_loop lib n i (rs @ [r]) =
     concat (map (\<lambda>p. record_lines lib p @ [lit ''---'' @ [10]]) rs) @ record_lines lib r"
  by (induction rs arbitrary: i) auto

lemma f_write_all:
  "list_all (\<lambda>s. \<not> write_raises s) ss \<Longrightarrow> f_write ss content = (None, content @ concat ss)"
  by (induction ss arbitrary: content) simp_all

lemma write_raises_append [simp]: "write_raises (a @ b) = (write_raises a \<or> write_raises b)"
  by (simp add: write_raises_def)

lemma write_raises_ascii [simp]:
  "\<not> write_raises [10]" "\<not> write_raises (lit ''Pinyin: '')" "\<not> write_raises (lit ''Hanzi: '')"
  "\<not> write_raises (lit ''Meaning: '')" "\<not> write_raises (lit ''Added: '')" "\<not> write_raises (lit ''---'')"
  by (simp_all add: write_raises_def is_surrogate_def lit_def)

lemma write_loop_encodable:
  "list_all (encodable lib) ps \<Longrightarrow> list_all (\<lambda>s. \<not> write_raises s) (write_loop lib n i ps)"
  by (induction ps arbitrary: i) (simp_all add: encodable_def record_lines_def)

lemma unwritable_print_all: "unwritable (print_all ms w) = unwritable w"
  by (simp add: print_all_def)

lemma client_get_files: "client_get srv url w = (r, w') \<Longrightarrow> files w' = files w"
  by (auto simp: client_get_def emit_def split: prod.splits)

lemma files_ops [simp]:
  "files (emit ev w) = files w" "files (py_print m w) = files w" "files (sleep n w) = files w"
  "files (print_all ms w) = files w"
  by (simp_all add: emit_def py_print_def sleep_def print_all_def)

lemma decks_attempts_files:
  "decks_attempts lib srv cfg wanted url atts w = (r, w') \<Longrightarrow> files w' = files w"
proof (induction atts arbitrary: w)
  case Nil
  then show ?case by auto
next
  case (Cons a atts)
  obtain o1 w1 where g: "client_get srv url w = (o1, w1)" by (cases "client_get srv url w")
  note f = client_get_files [OF g]
  show ?case
  proof (cases o1)
    case ReadTimeout
    show ?thesis
    proof (cases "a < retries - 1")
      case True
      with Cons.prems g ReadTimeout
      have "decks_attempts lib srv cfg wanted url atts
             (sleep (2 ^ a) (py_print (ReadTimeoutRetrying (a + 1) retries (2 ^ a)) w1)) = (r, w')"
        by simp
      from Cons.IH [OF this] f show ?thesis by simp
    next
      case False
      with Cons.prems g ReadTimeout f show ?thesis by auto
    qed
  next
    case NetworkError
    with Cons.prems g f show ?thesis by auto
  next
    case (Response st tx body)
    with Cons.prems g f show ?thesis by auto
  qed
qed

lemma get_deck_id_loop_files:
  "get_deck_id_loop fuel lib srv cfg wanted url w = Some (r, w') \<Longrightarrow> files w' = files w"
proof (induction fuel arbitrary: url w)
  case 0
  then show ?case by simp
next
  case (Suc fuel)
  show ?case
  proof (cases "url = []")
    case True
    with Suc.prems show ?thesis by simp
  next
    case False
    obtain r1 w1 where a: "decks_attempts lib srv cfg wanted url [0..<retries] w = (r1, w1)"
      by (cases "decks_attempts lib srv cfg wanted url [0..<retries] w")
    note f = decks_attempts_files [OF a]
    show ?thesis
    proof (cases r1)
      case (Inl e)
      with Suc.prems a False f show ?thesis by auto
    next
      case (Inr st)
      show ?thesis
      proof (cases st)
        case (DeckReturn x)
        with Inr Suc.prems a False f show ?thesis by auto
      next
        case (DeckBreak u)
        with Inr Suc.prems a False have "get_deck_id_loop fuel lib srv cfg wanted u w1 = Some (r, w')" by simp
        from Suc.IH [OF this] f show ?thesis by simp
      qed
    qed
  qed
qed

lemma cards_response_files:
  "cards_response lib cfg cards st tx body w = (r, w') \<Longrightarrow> files w' = files w"
  by (auto simp: cards_response_def Let_def split: if_splits option.splits sum.splits)

lemma cards_attempts_files:
  "cards_attempts lib srv cfg cards url atts w = (r, w') \<Longrightarrow> files w' = files w"
proof (induction atts arbitrary: w)
  case Nil
  then show ?case by auto
next
  case (Cons a atts)
  obtain o1 w1 where g: "client_get srv url w = (o1, w1)" by (cases "client_get srv url w")
  note f = client_get_files [OF g]
  show ?case
  proof (cases o1)
    case ReadTimeout
    show ?thesis
    proof (cases "a < retries - 1")
      case True
      with Cons.prems g ReadTimeout
      have "cards_attempts lib srv cfg cards url atts
             (sleep (2 ^ a) (py_print (ReadTimeoutRetrying (a + 1) retries (2 ^ a)) w1)) = (r, w')"
        by simp
      from Cons.IH [OF this] f show ?thesis by simp
    next
      case False
      with Cons.prems g ReadTimeout f show ?thesis by auto
    qed
  next
    case NetworkError
    with Cons.prems g f show ?thesis by auto
  next
    case (Response st tx body)
    with Cons.prems g have "cards_response lib cfg cards st tx body w1 = (r, w')" by simp
    from cards_response_files [OF this] f show ?thesis by simp
  qed
qed

lemma get_cards_loop_files:
  "get_cards_loop fuel lib srv cfg cards url w = Some (r, w') \<Longrightarrow> files w' = files w"
proof (induction fuel arbitrary: cards url w)
  case 0
  then show ?case by simp
next
  case (Suc fuel)
  show ?case
  proof (cases "url = []")
    case True
    with Suc.prems show ?thesis by simp
  next
    case False
    obtain r1 w1 where a: "cards_attempts lib srv cfg cards url [0..<retries] w = (r1, w1)"
      by (cases "cards_attempts lib srv cfg cards url [0..<retries] w")
    note f = cards_attempts_files [OF a]
    show ?thesis
    proof (cases r1)
      case (Inl e)
      with Suc.prems a False f show ?thesis by auto
    next
      case (Inr st)
      show ?thesis
      proof (cases st)
        case (CardsReturn x)
        with Inr Suc.prems a False f show ?thesis by auto
      next
        case (CardsBreak u cs)
        with Inr Suc.prems a False have "get_cards_loop fuel lib srv cfg cs u w1 = Some (r, w')" by simp
        from Suc.IH [OF this] f show ?thesis by simp
      qed
    qed
  qed
qed

lemma load_config_files: "load_config env w = (r, w1) \<Longrightarrow> files w1 = files w"
  by (auto simp: load_config_def split: option.splits)

section \<open>The claims\<close>

subsection \<open>C1: a deck that is in no page\<close>

text \<open>
  C1 (the claim: when no page has the deck, \<open>get_deck_id\<close> ends after reading every page
  once and raises the not-found exception). The code does not. First, \<open>url\<close> is never
  empty, so the \<open>raise\<close> after the \<open>while\<close> is never reached: no run of \<open>get_deck_id\<close>
  raises the not-found exception, whatever the service does. Second, on the last page the
  \<open>break\<close> of line 53 leaves the retry loop only, \<open>url\<close> is as it was, and the \<open>while\<close>
  asks for the same page again: against a service that answers every request with a page
  without bookmark and without the deck, \<open>get_deck_id\<close> does not return, whatever the
  fuel. Third, over any sequence of pages without the deck, each but the last with decks
  and a bookmark, \<open>get_deck_id\<close> has read every page once after as many turns of its loop
  and is then at the top of the loop again, with the URL of the last page.
\<close>

theorem get_deck_id_absent_deck_never_returns:
  "get_deck_id fuel lib srv cfg wanted w \<noteq> Some (Inl (DeckNotFound n), w')
   \<and> (find_deck lib wanted ds = Inr None \<longrightarrow>
        get_deck_id fuel lib (always (Response 200 tx (Some (JObj [(lit ''docs'', JArr ds)])))) cfg wanted w
          = None)
   \<and> (pages \<noteq> [] \<and> list_all (no_match lib wanted) pages \<and>
      list_all more_follows (butlast pages) \<and> \<not> more_follows (last pages) \<and>
      server v = map page_response pages @ rest \<longrightarrow>
        get_deck_id (length pages + k) lib scripted cfg wanted v =
          get_deck_id_loop k lib scripted cfg wanted
            (last_url cfg (api_base_url cfg @ lit ''/decks'') pages)
            (v\<lparr>server := rest,
               trace := trace v @ decks_run cfg (api_base_url cfg @ lit ''/decks'') pages\<rparr>))"
proof -
  have u: "api_base_url cfg @ lit ''/decks'' \<noteq> []" by (simp add: lit_def)
  show ?thesis
    using get_deck_id_never_not_found [of fuel lib srv cfg wanted w n w']
      lone_page_loop [of lib wanted ds "api_base_url cfg @ lit ''/decks''" fuel tx cfg w]
      decks_scripted_absent [of pages lib wanted "api_base_url cfg @ lit ''/decks''" v rest k cfg] u
    by (simp add: get_deck_id_def)
qed

text \<open>
  A listing with one other deck, with fuel for seven turns of the loop; and two pages
  handed out in order by a service that then refuses the connection: the third request is
  for the second page again, and the run ends with the transport's exception.
\<close>

theorem get_deck_id_absent_deck_never_returns_witness:
  "get_deck_id 7 example_lib
      (always (Response 200 [] (Some (JObj [(lit ''docs'', JArr [deck_json (lit ''Japanese'', lit ''J1'')])]))))
      example_cfg (lit ''Chinese'') (world0 ()) = None
   \<and> map_option (\<lambda>rw. (fst rw, gets_of (trace (snd rw))))
       (get_deck_id (length two_deck_pages + 1) example_lib scripted example_cfg (lit ''Chinese'')
          (world0 (map page_response two_deck_pages)))
     = Some (Inl TransportError,
         [lit ''http://m/api/decks'', lit ''http://m/api/decks?bookmark=B1'',
          lit ''http://m/api/decks?bookmark=B1''])"
proof -
  have f: "find_deck example_lib (lit ''Chinese'') [deck_json (lit ''Japanese'', lit ''J1'')] = Inr None"
    by (simp add: deck_json_def example_lib_def lit_def)
  have p: "two_deck_pages \<noteq> [] \<and> list_all (no_match example_lib (lit ''Chinese'')) two_deck_pages \<and>
      list_all more_follows (butlast two_deck_pages) \<and> \<not> more_follows (last two_deck_pages) \<and>
      server (world0 (map page_response two_deck_pages)) = map page_response two_deck_pages @ []"
    by (simp add: two_deck_pages_def no_match_def more_follows_def world0_def deck_json_def
          example_lib_def lit_def)
  from get_deck_id_absent_deck_never_returns [of 7 example_lib "always ReadTimeout" example_cfg
      "lit ''Chinese''" "world0 ()" "[]" "world0 ()" "[deck_json (lit ''Japanese'', lit ''J1'')]" "[]"
      two_deck_pages "world0 (map page_response two_deck_pages)" "[]" 1] f p
  have a: "get_deck_id 7 example_lib
      (always (Response 200 [] (Some (JObj [(lit ''docs'', JArr [deck_json (lit ''Japanese'', lit ''J1'')])]))))
      example_cfg (lit ''Chinese'') (world0 ()) = None"
    and b: "get_deck_id (length two_deck_pages + 1) example_lib scripted example_cfg (lit ''Chinese'')
          (world0 (map page_response two_deck_pages)) =
          get_deck_id_loop 1 example_lib scripted example_cfg (lit ''Chinese'')
            (last_url example_cfg (api_base_url example_cfg @ lit ''/decks'') two_deck_pages)
            ((world0 (map page_response two_deck_pages))\<lparr>server := [],
               trace := trace (world0 (map page_response two_deck_pages)) @
                  decks_run example_cfg (api_base_url example_cfg @ lit ''/decks'') two_deck_pages\<rparr>)"
    by blast+
  show ?thesis
    unfolding b using a
    by (simp add: two_deck_pages_def next_decks_url_def example_cfg_def world0_def retries_upt
          client_get_def scripted_def emit_def lit_def)
qed

subsection \<open>C2: what happens to an exception\<close>

text \<open>
  C2, as amended. An exception raised inside \<open>main\<close> (an HTTP error, the timeouts of a
  request used up, any other exception of the deck resolution, of the card fetching or of
  the writing) is caught by the handler of \<open>main\<close> and printed as the last thing the run
  does, and a run whose configuration loaded and that ends, ends with exit status 0. A
  missing API key is different: the configuration error is raised when the module is
  loaded, outside that handler, nothing catches it, and the process ends with it before
  doing anything else.
\<close>

theorem errors_in_main_are_caught:
  "(MOCHI_API_KEY env = None \<longrightarrow>
      program fuel lib srv env w = Some (Uncaught ConfigurationError, w))
   \<and> (MOCHI_API_KEY env \<noteq> None \<and> program fuel lib srv env w = Some (st, w') \<longrightarrow> st = Exit0)
   \<and> (get_deck_id fuel lib srv cfg (deck_name cfg) (py_print (FetchingDeck (deck_name cfg)) w)
        = Some (Inl e, w2) \<longrightarrow>
      main fuel lib srv cfg w = Some (py_print (ErrorMessage e) w2))
   \<and> (get_deck_id fuel lib srv cfg (deck_name cfg) (py_print (FetchingDeck (deck_name cfg)) w)
        = Some (Inr deck_id, w2) \<and>
      get_cards fuel lib srv cfg deck_id (py_print FetchingCards w2) = Some (Inl e, w4) \<longrightarrow>
      main fuel lib srv cfg w = Some (py_print (ErrorMessage e) w4))
   \<and> (get_deck_id fuel lib srv cfg (deck_name cfg) (py_print (FetchingDeck (deck_name cfg)) w)
        = Some (Inr deck_id, w2) \<and>
      get_cards fuel lib srv cfg deck_id (py_print FetchingCards w2) = Some (Inr cards, w4) \<and>
      cards \<noteq> [] \<and>
      write_vocab_to_file lib cfg cards
        (py_print (WritingTo (output_file cfg)) (py_print (FoundCards (length cards)) w4))
        = (Inl e, w7) \<longrightarrow>
      main fuel lib srv cfg w = Some (py_print (ErrorMessage e) w7))"
proof -
  have 1: "MOCHI_API_KEY env = None \<longrightarrow>
      program fuel lib srv env w = Some (Uncaught ConfigurationError, w)"
    by (simp add: program_def load_config_def)
  have 2: "MOCHI_API_KEY env \<noteq> None \<and> program fuel lib srv env w = Some (st, w') \<longrightarrow> st = Exit0"
    by (auto simp: program_def load_config_def split: option.splits)
  show ?thesis
    using 1 2 by (simp add: main_def Let_def)
qed

text \<open>
  Three runs with the API key set: the deck listing answers 500, the card listing answers
  500, the output file cannot be opened. Each ends with exit status 0, the error printed
  last.
\<close>

theorem errors_in_main_are_caught_witness:
  "map_option (\<lambda>sw. (fst sw, last (trace (snd sw))))
     (program 1 example_lib (always (Response 500 (lit ''oops'') None)) env_with_key (world0 ()))
   = Some (Exit0, Print (ErrorMessage (FailedToFetch Decks 500 (lit ''oops''))))
   \<and> map_option (\<lambda>sw. (fst sw, last (trace (snd sw))))
     (program 1 example_lib scripted env_with_key
        (world0 [chinese_deck_page, Response 500 (lit ''oops'') None]))
   = Some (Exit0, Print (ErrorMessage (FailedToFetch Cards 500 (lit ''oops''))))
   \<and> map_option (\<lambda>sw. (fst sw, last (trace (snd sw))))
     (program 1 example_lib scripted env_with_key
        ((world0 [chinese_deck_page, one_card_page])\<lparr>unwritable := (\<lambda>p. True)\<rparr>))
   = Some (Exit0, Print (ErrorMessage OSError))"
proof -
  have a: "map_option (\<lambda>sw. (fst sw, last (trace (snd sw))))
     (program 1 example_lib (always (Response 500 (lit ''oops'') None)) env_with_key (world0 ()))
   = Some (Exit0, Print (ErrorMessage (FailedToFetch Decks 500 (lit ''oops''))))"
    using errors_in_main_are_caught [of env_with_key 1 example_lib
      "always (Response 500 (lit ''oops'') None)" "world0 ()" Exit0 "world0 ()"]
    by (simp add: program_def load_config_def env_with_key_def main_def get_deck_id_def retries_upt
        client_get_def always_def decks_response_def emit_def py_print_def lit_def)
  have b: "map_option (\<lambda>sw. (fst sw, last (trace (snd sw))))
     (program 1 example_lib scripted env_with_key
        (world0 [chinese_deck_page, Response 500 (lit ''oops'') None]))
   = Some (Exit0, Print (ErrorMessage (FailedToFetch Cards 500 (lit ''oops''))))"
    by (simp add: program_def load_config_def env_with_key_def main_def get_deck_id_def get_cards_def
        retries_upt client_get_def scripted_def decks_response_def cards_response_def after_def
        chinese_deck_page_def example_lib_def world0_def emit_def py_print_def lit_def)
  have c: "map_option (\<lambda>sw. (fst sw, last (trace (snd sw))))
     (program 1 example_lib scripted env_with_key
        ((world0 [chinese_deck_page, one_card_page])\<lparr>unwritable := (\<lambda>p. True)\<rparr>))
   = Some (Exit0, Print (ErrorMessage OSError))"
    by (simp add: program_def load_config_def env_with_key_def main_def get_deck_id_def get_cards_def
        retries_upt client_get_def scripted_def decks_response_def cards_response_def after_def
        chinese_deck_page_def one_card_page_def page_response_def page_json_def
        write_vocab_to_file_def parse_card_def parse_card_try_def extract_pinyin_def
        card_print_raises_def print_raises_def is_surrogate_def print_all_def
        example_lib_def world0_def emit_def py_print_def lit_def Let_def)
  from a b c show ?thesis by simp
qed

text \<open>
  The claim as stated has every fatal error caught and the process exit 0. Without the API
  key the run ends with the uncaught configuration error.
\<close>

theorem missing_api_key_counterexample:
  "program 1 example_lib (always (Response 200 [] None)) env_without_key (world0 ())
     = Some (Uncaught ConfigurationError, world0 ())
   \<and> Uncaught ConfigurationError \<noteq> Exit0"
  by (simp add: program_def load_config_def env_without_key_def)

subsection \<open>C3: read timeouts and the retry loop\<close>

text \<open>
  C3, as amended. A request that fails with a read timeout is made again, on the same URL,
  up to three attempts in all. After a failed attempt that is followed by another one the
  function sleeps \<open>2 ^ attempt\<close> seconds, so one second after the first and two after the
  second; after the third failed attempt it does not sleep, it raises the exception that
  names the operation (\<open>decks\<close> or \<open>cards\<close>). Three timeouts in a row: exactly three
  requests, sleeps of 1 and 2 seconds between them, then the exception. One or two timeouts
  and then a response: the response is handled as usual after those sleeps.
\<close>

theorem read_timeouts_three_attempts:
  "(srv (server w) url = (ReadTimeout, s1) \<and> srv s1 url = (ReadTimeout, s2) \<and>
    srv s2 url = (ReadTimeout, s3) \<longrightarrow>
      decks_attempts lib srv cfg wanted url [0..<retries] w =
        (Inl (RetriesExhausted Decks),
         w\<lparr>server := s3,
           trace := trace w @ [Get url, Print (ReadTimeoutRetrying 1 3 1), Sleep 1,
             Get url, Print (ReadTimeoutRetrying 2 3 2), Sleep 2, Get url]\<rparr>)
    \<and> cards_attempts lib srv cfg cards url [0..<retries] w =
        (Inl (RetriesExhausted Cards),
         w\<lparr>server := s3,
           trace := trace w @ [Get url, Print (ReadTimeoutRetrying 1 3 1), Sleep 1,
             Get url, Print (ReadTimeoutRetrying 2 3 2), Sleep 2, Get url]\<rparr>))
   \<and> (srv (server w) url = (ReadTimeout, s1) \<and> srv s1 url = (ReadTimeout, s2) \<and>
      srv s2 url = (Response st tx body, s3) \<longrightarrow>
      decks_attempts lib srv cfg wanted url [0..<retries] w =
        (decks_response lib cfg wanted url st tx body,
         w\<lparr>server := s3,
           trace := trace w @ [Get url, Print (ReadTimeoutRetrying 1 3 1), Sleep 1,
             Get url, Print (ReadTimeoutRetrying 2 3 2), Sleep 2, Get url]\<rparr>)
    \<and> cards_attempts lib srv cfg cards url [0..<retries] w =
        cards_response lib cfg cards st tx body
         (w\<lparr>server := s3,
           trace := trace w @ [Get url, Print (ReadTimeoutRetrying 1 3 1), Sleep 1,
             Get url, Print (ReadTimeoutRetrying 2 3 2), Sleep 2, Get url]\<rparr>))
   \<and> (srv (server w) url = (ReadTimeout, s1) \<and> srv s1 url = (Response st tx body, s2) \<longrightarrow>
      decks_attempts lib srv cfg wanted url [0..<retries] w =
        (decks_response lib cfg wanted url st tx body,
         w\<lparr>server := s2,
           trace := trace w @ [Get url, Print (ReadTimeoutRetrying 1 3 1), Sleep 1, Get url]\<rparr>)
    \<and> cards_attempts lib srv cfg cards url [0..<retries] w =
        cards_response lib cfg cards st tx body
         (w\<lparr>server := s2,
           trace := trace w @ [Get url, Print (ReadTimeoutRetrying 1 3 1), Sleep 1, Get url]\<rparr>))"
  unfolding retries_upt by (simp add: world_ops retries_def numeral_2_eq_2)

text \<open>
  \<open>get_cards\<close> against a service that always times out, and against services that time
  out once or twice before they answer.
\<close>

theorem read_timeouts_three_attempts_witness:
  "get_cards (Suc 0) example_lib (always ReadTimeout) example_cfg (JStr (lit ''D1'')) (world0 ()) =
     Some (Inl (RetriesExhausted Cards),
       (world0 ())\<lparr>trace := [Get (lit ''http://m/api/cards?deck-id=D1&limit=100''),
          Print (ReadTimeoutRetrying 1 3 1), Sleep 1,
          Get (lit ''http://m/api/cards?deck-id=D1&limit=100''),
          Print (ReadTimeoutRetrying 2 3 2), Sleep 2,
          Get (lit ''http://m/api/cards?deck-id=D1&limit=100'')]\<rparr>)
   \<and> map_option (\<lambda>rw. (fst rw, sleeps_of (trace (snd rw)), length (gets_of (trace (snd rw)))))
        (get_cards (Suc 0) example_lib scripted example_cfg (JStr (lit ''D1''))
           (world0 [ReadTimeout, one_card_page]))
       = Some (Inr [JStr (lit ''c1'')], [1], 2)
   \<and> map_option (\<lambda>rw. (fst rw, sleeps_of (trace (snd rw)), length (gets_of (trace (snd rw)))))
        (get_cards (Suc 0) example_lib scripted example_cfg (JStr (lit ''D1''))
           (world0 [ReadTimeout, ReadTimeout, one_card_page]))
       = Some (Inr [JStr (lit ''c1'')], [1, 2], 3)"
proof -
  let ?srv = "always ReadTimeout :: unit server"
  let ?u = "lit ''http://m/api/cards?deck-id=D1&limit=100''"
  have s: "?srv (server (world0 ())) ?u = (ReadTimeout, ()) \<and> ?srv () ?u = (ReadTimeout, ()) \<and> ?srv () ?u = (ReadTimeout, ())"
    by (simp add: always_def)
  from read_timeouts_three_attempts [of ?srv "world0 ()" ?u "()" "()" "()" example_lib example_cfg "[]" "[]"] s
  have c: "cards_attempts example_lib ?srv example_cfg [] ?u [0..<retries] (world0 ()) =
        (Inl (RetriesExhausted Cards),
         (world0 ())\<lparr>server := (),
           trace := trace (world0 ()) @ [Get ?u, Print (ReadTimeoutRetrying 1 3 1), Sleep 1,
             Get ?u, Print (ReadTimeoutRetrying 2 3 2), Sleep 2, Get ?u]\<rparr>)"
    by blast
  have u: "api_base_url example_cfg @ lit ''/cards?deck-id='' @ fmt example_lib (JStr (lit ''D1'')) @ lit ''&limit=100'' = ?u"
    by (simp add: example_cfg_def lit_def)
  have n: "?u \<noteq> []" by (simp add: lit_def)
  have a: "get_cards (Suc 0) example_lib ?srv example_cfg (JStr (lit ''D1'')) (world0 ()) =
     Some (Inl (RetriesExhausted Cards),
       (world0 ())\<lparr>trace := [Get ?u, Print (ReadTimeoutRetrying 1 3 1), Sleep 1,
          Get ?u, Print (ReadTimeoutRetrying 2 3 2), Sleep 2, Get ?u]\<rparr>)"
    unfolding get_cards_def u using n
    by (simp add: c del: cards_attempts.simps) (simp add: world0_def)
  have r1: "scripted (server (world0 [ReadTimeout, one_card_page])) ?u = (ReadTimeout, [one_card_page])
      \<and> scripted [one_card_page] ?u = (Response 200 [] (Some (page_json [JStr (lit ''c1'')] None)), [])"
    by (simp add: scripted_def world0_def one_card_page_def page_response_def)
  from read_timeouts_three_attempts [of scripted "world0 [ReadTimeout, one_card_page]" ?u "[one_card_page]"
      "[]" "[]" example_lib example_cfg "[]" "[]" 200 "[]" "Some (page_json [JStr (lit ''c1'')] None)"] r1
  have c1: "cards_attempts example_lib scripted example_cfg [] ?u [0..<retries] (world0 [ReadTimeout, one_card_page]) =
        cards_response example_lib example_cfg [] 200 [] (Some (page_json [JStr (lit ''c1'')] None))
         ((world0 [ReadTimeout, one_card_page])\<lparr>server := [],
           trace := trace (world0 [ReadTimeout, one_card_page]) @
             [Get ?u, Print (ReadTimeoutRetrying 1 3 1), Sleep 1, Get ?u]\<rparr>)"
    by blast
  have b: "map_option (\<lambda>rw. (fst rw, sleeps_of (trace (snd rw)), length (gets_of (trace (snd rw)))))
        (get_cards (Suc 0) example_lib scripted example_cfg (JStr (lit ''D1''))
           (world0 [ReadTimeout, one_card_page]))
       = Some (Inr [JStr (lit ''c1'')], [1], 2)"
    unfolding get_cards_def u using n
    by (simp add: c1 del: cards_attempts.simps)
       (simp add: cards_response_def page_json_def world0_def py_print_def emit_def Let_def lit_def)
  have r2: "scripted (server (world0 [ReadTimeout, ReadTimeout, one_card_page])) ?u = (ReadTimeout, [ReadTimeout, one_card_page])
      \<and> scripted [ReadTimeout, one_card_page] ?u = (ReadTimeout, [one_card_page])
      \<and> scripted [one_card_page] ?u = (Response 200 [] (Some (page_json [JStr (lit ''c1'')] None)), [])"
    by (simp add: scripted_def world0_def one_card_page_def page_response_def)
  from read_timeouts_three_attempts [of scripted "world0 [ReadTimeout, ReadTimeout, one_card_page]" ?u
      "[ReadTimeout, one_card_page]" "[one_card_page]" "[]" example_lib example_cfg "[]" "[]" 200 "[]"
      "Some (page_json [JStr (lit ''c1'')] None)"] r2
  have c2: "cards_attempts example_lib scripted example_cfg [] ?u [0..<retries]
         (world0 [ReadTimeout, ReadTimeout, one_card_page]) =
        cards_response example_lib example_cfg [] 200 [] (Some (page_json [JStr (lit ''c1'')] None))
         ((world0 [ReadTimeout, ReadTimeout, one_card_page])\<lparr>server := [],
           trace := trace (world0 [ReadTimeout, ReadTimeout, one_card_page]) @
             [Get ?u, Print (ReadTimeoutRetrying 1 3 1), Sleep 1,
              Get ?u, Print (ReadTimeoutRetrying 2 3 2), Sleep 2, Get ?u]\<rparr>)"
    by blast
  have d: "map_option (\<lambda>rw. (fst rw, sleeps_of (trace (snd rw)), length (gets_of (trace (snd rw)))))
        (get_cards (Suc 0) example_lib scripted example_cfg (JStr (lit ''D1''))
           (world0 [ReadTimeout, ReadTimeout, one_card_page]))
       = Some (Inr [JStr (lit ''c1'')], [1, 2], 3)"
    unfolding get_cards_def u using n
    by (simp add: c2 del: cards_attempts.simps)
       (simp add: cards_response_def page_json_def world0_def py_print_def emit_def Let_def lit_def)
  from a b d show ?thesis by simp
qed

text \<open>
  The claim as stated has a sleep of \<open>2 ^ attempt\<close> seconds after each failed attempt, the
  delays being 1, 2 and 4 seconds. On a service that always times out there are three
  requests and two sleeps, of 1 and 2 seconds: no sleep follows the third failure.
\<close>

theorem read_timeouts_sleep_counterexample:
  "map_option (\<lambda>rw. (fst rw, length (gets_of (trace (snd rw))), sleeps_of (trace (snd rw))))
     (get_deck_id (Suc 0) example_lib (always ReadTimeout) example_cfg (lit ''Chinese'') (world0 ()))
     = Some (Inl (RetriesExhausted Decks), 3, [1, 2])
   \<and> [1, 2] \<noteq> [1, 2, 4::nat]"
proof -
  have n: "api_base_url example_cfg @ lit ''/decks'' \<noteq> []" by (simp add: lit_def)
  show ?thesis
    unfolding get_deck_id_def using n
    by (simp add: retries_upt) (simp add: world_ops retries_def always_def world0_def)
qed

subsection \<open>C4: the URLs \<open>get_cards\<close> asks for\<close>

text \<open>
  C4, as amended. Over a sequence of pages as in C7, the first request of \<open>get_cards\<close> is
  for \<open>/cards?deck-id=<deck id>&limit=100\<close>, and each later request is for
  \<open>/cards?bookmark=<bookmark of the page before>&limit=100\<close>: every request carries the
  limit of 100, the first one the deck-id filter, the later ones the bookmark in its place.
\<close>

theorem get_cards_request_urls:
  assumes "pages \<noteq> []" and "list_all more_follows (butlast pages)"
    and "\<not> more_follows (last pages)" and "server w = map page_response pages @ rest"
  shows "map_option (\<lambda>rw. gets_of (trace (snd rw)))
           (get_cards (length pages + k) lib scripted cfg deck_id w) =
           Some (gets_of (trace w) @
                 (api_base_url cfg @ lit ''/cards?deck-id='' @ fmt lib deck_id @ lit ''&limit=100'') #
                 map (\<lambda>p. api_base_url cfg @ lit ''/cards?bookmark='' @
                             (case snd p of None \<Rightarrow> [] | Some b \<Rightarrow> b) @ lit ''&limit=100'')
                   (butlast pages))"
proof -
  have u: "api_base_url cfg @ lit ''/cards?deck-id='' @ fmt lib deck_id @ lit ''&limit=100'' \<noteq> []"
    by (simp add: lit_def)
  from cards_scripted_run [OF assms(1-3) u assms(4), of k lib cfg "[]"] assms(1)
  show ?thesis
    by (simp add: get_cards_def gets_of_append gets_of_cards_run next_cards_url_def)
qed

text \<open>The two requests made for the two pages.\<close>

theorem get_cards_request_urls_witness:
  "map_option (\<lambda>rw. gets_of (trace (snd rw)))
     (get_cards (length two_pages) example_lib scripted example_cfg (JStr (lit ''D1''))
       (world0 (map page_response two_pages))) =
   Some [lit ''http://m/api/cards?deck-id=D1&limit=100'', lit ''http://m/api/cards?bookmark=B1&limit=100'']"
  using get_cards_request_urls [of two_pages "world0 (map page_response two_pages)" "[]"
      0 example_lib example_cfg "JStr (lit ''D1'')"]
  by (simp add: two_pages_def more_follows_def world0_def example_cfg_def lit_def)

text \<open>
  The claim as stated has the deck-id filter on every request. Over two pages, the query
  parameters of the second request are \<open>bookmark=B1\<close> and \<open>limit=100\<close>: no \<open>deck-id\<close>.
\<close>

theorem continuation_request_without_deck_id_counterexample:
  "map_option (\<lambda>rw. map query_params (gets_of (trace (snd rw))))
     (get_cards (length two_pages) example_lib scripted example_cfg (JStr (lit ''D1''))
       (world0 (map page_response two_pages))) =
   Some [[lit ''deck-id=D1'', lit ''limit=100''], [lit ''bookmark=B1'', lit ''limit=100'']]
   \<and> lit ''deck-id=D1'' \<notin> set [lit ''bookmark=B1'', lit ''limit=100'']"
proof -
  have u: "api_base_url example_cfg @ lit ''/cards?deck-id='' @ fmt example_lib (JStr (lit ''D1'')) @ lit ''&limit=100'' \<noteq> []"
    by (simp add: lit_def)
  have "two_pages \<noteq> []" "list_all more_follows (butlast two_pages)" "\<not> more_follows (last two_pages)"
    by (simp_all add: two_pages_def more_follows_def lit_def)
  from cards_scripted_run [where w = "world0 (map page_response two_pages)" and rest = "[]"
      and k = 0 and lib = example_lib and cfg = example_cfg and cards = "[]", OF this u]
  have "get_cards (length two_pages) example_lib scripted example_cfg (JStr (lit ''D1'')) (world0 (map page_response two_pages))
     = Some (Inr (concat (map fst two_pages)),
         (world0 (map page_response two_pages))\<lparr>server := [], trace := trace (world0 (map page_response two_pages)) @
            cards_run example_cfg (api_base_url example_cfg @ lit ''/cards?deck-id='' @ fmt example_lib (JStr (lit ''D1'')) @ lit ''&limit=100'') two_pages\<rparr>)"
    by (simp add: get_cards_def world0_def)
  then show ?thesis
    by (simp add: world0_def two_pages_def next_cards_url_def example_cfg_def query_params_def lit_def)
qed

subsection \<open>C5: the hanzi of a card\<close>

text \<open>
  C5, as amended. When \<open>parse_card\<close> returns a record, \<open>card.fields\<close> is a dict and the hanzi
  comes from its first entry whose key is not \<open>"name"\<close>: it is that entry's \<open>value\<close> string
  with every uppercase \<open>V\<close> removed wherever it stands, inside a longer word too, together
  with the whitespace next to it, and then trimmed. So the hanzi has no \<open>V\<close> left, it keeps
  every other character that is not whitespace, in order, and a value without any \<open>V\<close> is
  only trimmed. Without such an entry the hanzi is the empty string.
\<close>

theorem parse_card_hanzi:
  assumes "parse_card lib crd = (Inr (Some r), msgs)"
  shows "\<exists>fs. py_get crd (lit ''fields'') (JObj []) = Inr (JObj fs) \<and>
     (case find (\<lambda>kv. fst kv \<noteq> lit ''name'') fs of
        None \<Rightarrow> hanzi r = []
      | Some kv \<Rightarrow>
          (\<exists>v. py_get (snd kv) (lit ''value'') (JStr []) = Inr (JStr v) \<and>
               hanzi r = py_strip (sub_V v) \<and>
               86 \<notin> set (hanzi r) \<and>
               filter (\<lambda>c. c \<noteq> 86 \<and> \<not> isspace c) (hanzi r) =
                 filter (\<lambda>c. c \<noteq> 86 \<and> \<not> isspace c) v \<and>
               (86 \<notin> set v \<longrightarrow> hanzi r = py_strip v)))"
proof -
  from parse_card_Some [OF assms] have "extract_hanzi crd = Inr (hanzi r)" by simp
  then obtain fs where g: "py_get crd (lit ''fields'') (JObj []) = Inr (JObj fs)"
    and s: "scan_hanzi fs = Inr (hanzi r)"
    by (auto simp: extract_hanzi_def after_Inr py_items_Inr)
  have k: "86 \<notin> set (hanzi r) \<and>
       filter (\<lambda>c. c \<noteq> 86 \<and> \<not> isspace c) (hanzi r) = filter (\<lambda>c. c \<noteq> 86 \<and> \<not> isspace c) v \<and>
       (86 \<notin> set v \<longrightarrow> hanzi r = py_strip v)"
    if h: "hanzi r = py_strip (sub_V v)" for v
  proof -
    have 1: "86 \<notin> set (hanzi r)"
      using sub_V_no_V [of v] py_strip_subset [of 86 "sub_V v"] h by auto
    have "filter kept (hanzi r) = filter kept v"
      by (simp add: h py_strip_keeps sub_V_keeps)
    then have 2: "filter (\<lambda>c. c \<noteq> 86 \<and> \<not> isspace c) (hanzi r) = filter (\<lambda>c. c \<noteq> 86 \<and> \<not> isspace c) v"
      unfolding kept_def .
    have 3: "86 \<notin> set v \<longrightarrow> hanzi r = py_strip v"
      by (simp add: h sub_V_id)
    from 1 2 3 show ?thesis by simp
  qed
  show ?thesis
  proof (cases "find (\<lambda>kv. fst kv \<noteq> lit ''name'') fs")
    case None
    with scan_hanzi_find [OF s] have "hanzi r = []" by simp
    with g None show ?thesis by simp
  next
    case (Some kv)
    with scan_hanzi_find [OF s] obtain v
      where v: "py_get (snd kv) (lit ''value'') (JStr []) = Inr (JStr v)"
        and h: "hanzi r = py_strip (sub_V v)"
      by auto
    have "\<exists>v. py_get (snd kv) (lit ''value'') (JStr []) = Inr (JStr v) \<and>
               hanzi r = py_strip (sub_V v) \<and>
               86 \<notin> set (hanzi r) \<and>
               filter (\<lambda>c. c \<noteq> 86 \<and> \<not> isspace c) (hanzi r) =
                 filter (\<lambda>c. c \<noteq> 86 \<and> \<not> isspace c) v \<and>
               (86 \<notin> set v \<longrightarrow> hanzi r = py_strip v)"
      using v h k [OF h] by (intro exI [of _ v]) blast
    with g Some show ?thesis by simp
  qed
qed

text \<open>The card of the specification's example: the hanzi is the one character U+6CA1.\<close>

theorem parse_card_hanzi_witness:
  "map_sum id (map_option hanzi) (fst (parse_card example_lib spec_card)) = Inr (Some [27809])
   \<and> [27809] = py_strip (sub_V [27809, 32, 86])"
proof -
  have p: "parse_card example_lib spec_card =
     (Inr (Some \<lparr>pinyin = [109, 233, 105], hanzi = [27809], meaning = JStr (lit ''not''),
            added = JStr (lit ''2023-01-01T10:00:00+00:00'')\<rparr>), [])"
    by (simp add: parse_card_def parse_card_try_def extract_pinyin_def extract_hanzi_def
        extract_meaning_def extract_added_def after_def spec_card_def example_lib_def lit_def
        py_strip_def isspace_def)
  let ?fs = "[(lit ''name'', JObj [(lit ''value'', JStr (lit ''x''))]),
              (lit ''f1'', JObj [(lit ''value'', JStr [27809, 32, 86])])]"
  from parse_card_hanzi [OF p] obtain fs
    where 1: "py_get spec_card (lit ''fields'') (JObj []) = Inr (JObj fs)"
      and 2: "case find (\<lambda>kv. fst kv \<noteq> lit ''name'') fs of
                None \<Rightarrow> [27809] = ([] :: pystr)
              | Some kv \<Rightarrow>
                  (\<exists>v. py_get (snd kv) (lit ''value'') (JStr []) = Inr (JStr v) \<and>
                       [27809] = py_strip (sub_V v))"
    by (auto split: option.splits)
  from 1 have fs: "fs = ?fs" by (simp add: spec_card_def lit_def)
  have f: "find (\<lambda>kv. fst kv \<noteq> lit ''name'') ?fs =
             Some (lit ''f1'', JObj [(lit ''value'', JStr [27809, 32, 86])])"
    by (simp add: lit_def)
  from 2 obtain v
    where "py_get (JObj [(lit ''value'', JStr [27809, 32, 86])]) (lit ''value'') (JStr []) = Inr (JStr v)"
      and h: "[27809] = py_strip (sub_V v)"
    unfolding fs f by auto
  then have "v = [27809, 32, 86]" by simp
  with h p show ?thesis by (simp del: sub_V.simps)
qed

text \<open>
  The claim as stated keeps a \<open>V\<close> that stands inside a longer word. The field value \<open>DVD\<close>
  gives the hanzi \<open>DD\<close>.
\<close>

theorem embedded_V_removed_counterexample:
  "map_sum id (map_option hanzi) (fst (parse_card example_lib dvd_card)) = Inr (Some (lit ''DD''))
   \<and> lit ''DD'' \<noteq> lit ''DVD''"
  by (simp add: parse_card_def parse_card_try_def extract_pinyin_def extract_hanzi_def
        extract_meaning_def extract_added_def after_def dvd_card_def example_lib_def lit_def
        py_strip_def isspace_def)

subsection \<open>C6: a card that gives no record\<close>

text \<open>
  C6. The claim has \<open>parse_card\<close> return \<open>None\<close> for a card whose extraction raises or whose
  pinyin, hanzi and meaning all come out empty, the raw card logged, and the remaining cards
  processed. The code does not do so for every such card. When the card holds a lone
  surrogate that the terminal refuses, the \<open>print\<close> of the raw card raises UnicodeEncodeError:
  the one of line 138 is caught by the handler, whose own \<open>print\<close> at line 148 then raises
  as well, and nothing catches that. So \<open>parse_card\<close> raises instead of returning \<open>None\<close>,
  and nothing is printed. The loop of \<open>write_vocab_to_file\<close> ends at that card, wherever it
  stands among the cards: the cards after it are not parsed, and \<open>write_vocab_to_file\<close>
  raises before it opens the file.
\<close>

theorem unprintable_card_aborts_the_loop:
  "(card_print_raises lib crd \<and>
      ((\<exists>e. extract_pinyin crd = Inl e \<or> extract_hanzi crd = Inl e \<or>
            extract_meaning crd = Inl e \<or> extract_added lib crd = Inl e) \<or>
       (extract_pinyin crd = Inr [] \<and> extract_hanzi crd = Inr [] \<and>
        (\<exists>m. extract_meaning crd = Inr m \<and> \<not> truthy m))) \<longrightarrow>
      parse_card lib crd = (Inl UnicodeEncodeError, []))
   \<and> (valid_cards_loop lib pre [] w = (Inr vs, w') \<and> parse_card lib crd = (Inl e, []) \<longrightarrow>
        valid_cards_loop lib (pre @ crd # cards) [] w = (Inl e, w') \<and>
        write_vocab_to_file lib cfg (pre @ crd # cards) w = (Inl e, w') \<and>
        files w' = files w)"
proof -
  have a: "card_print_raises lib crd \<and>
      ((\<exists>e. extract_pinyin crd = Inl e \<or> extract_hanzi crd = Inl e \<or>
            extract_meaning crd = Inl e \<or> extract_added lib crd = Inl e) \<or>
       (extract_pinyin crd = Inr [] \<and> extract_hanzi crd = Inr [] \<and>
        (\<exists>m. extract_meaning crd = Inr m \<and> \<not> truthy m))) \<longrightarrow>
      parse_card lib crd = (Inl UnicodeEncodeError, [])"
    by (cases "extract_pinyin crd"; cases "extract_hanzi crd"; cases "extract_meaning crd";
        cases "extract_added lib crd")
       (auto simp: parse_card_def parse_card_try_def after_def)
  have b: "valid_cards_loop lib pre [] w = (Inr vs, w') \<and> parse_card lib crd = (Inl e, []) \<longrightarrow>
        valid_cards_loop lib (pre @ crd # cards) [] w = (Inl e, w') \<and>
        write_vocab_to_file lib cfg (pre @ crd # cards) w = (Inl e, w') \<and>
        files w' = files w"
  proof
    assume h: "valid_cards_loop lib pre [] w = (Inr vs, w') \<and> parse_card lib crd = (Inl e, [])"
    then have l: "valid_cards_loop lib (pre @ crd # cards) [] w = (Inl e, w')"
      by (simp add: valid_cards_loop_append print_all_Nil)
    from h valid_cards_loop_keeps [of lib pre "[]" w "Inr vs" w'] have "files w' = files w"
      by simp
    with l show "valid_cards_loop lib (pre @ crd # cards) [] w = (Inl e, w') \<and>
        write_vocab_to_file lib cfg (pre @ crd # cards) w = (Inl e, w') \<and>
        files w' = files w"
      by (simp add: write_vocab_to_file_def)
  qed
  from a b show ?thesis by blast
qed

text \<open>
  Three cards from the service: one that parses, one with nothing to extract and the first
  half of an emoji in its content, and the example of the specification. The second makes
  \<open>parse_card\<close> raise; the third is not parsed and no file is written.
\<close>

theorem unprintable_card_aborts_the_loop_witness:
  "parse_card example_lib unprintable_card = (Inl UnicodeEncodeError, [])
   \<and> write_vocab_to_file example_lib example_cfg [dvd_card, unprintable_card, spec_card] (world0 ())
       = (Inl UnicodeEncodeError, world0 ())"
proof -
  have d: "parse_card example_lib dvd_card =
      (Inr (Some \<lparr>pinyin = [], hanzi = lit ''DD'', meaning = JStr (lit ''disc''), added = JStr []\<rparr>), [])"
    by (simp add: parse_card_def parse_card_try_def extract_pinyin_def extract_hanzi_def
        extract_meaning_def extract_added_def after_def dvd_card_def example_lib_def lit_def
        py_strip_def isspace_def)
  have l: "valid_cards_loop example_lib [dvd_card] [] (world0 ()) =
      (Inr [\<lparr>pinyin = [], hanzi = lit ''DD'', meaning = JStr (lit ''disc''), added = JStr []\<rparr>], world0 ())"
    by (simp add: d print_all_Nil)
  have r: "card_print_raises example_lib unprintable_card"
    by (simp add: card_print_raises_def print_raises_def is_surrogate_def unprintable_card_def
        example_lib_def)
  have x: "extract_pinyin unprintable_card = Inr [] \<and> extract_hanzi unprintable_card = Inr [] \<and>
        extract_meaning unprintable_card = Inr (JStr [])"
    by (simp add: extract_pinyin_def extract_hanzi_def extract_meaning_def after_def
        unprintable_card_def lit_def)
  from unprintable_card_aborts_the_loop [where lib = example_lib and crd = unprintable_card
      and pre = "[dvd_card]" and w = "world0 ()" and w' = "world0 ()" and e = UnicodeEncodeError
      and cards = "[spec_card]" and cfg = example_cfg
      and vs = "[\<lparr>pinyin = [], hanzi = lit ''DD'', meaning = JStr (lit ''disc''), added = JStr []\<rparr>]"]
    l r x
  show ?thesis by simp
qed

subsection \<open>C7: the cards of all pages, in order\<close>

text \<open>
  C7. Let the service hand out a sequence of card pages, one for each request, each but the
  last with cards and a bookmark, the last one empty or without a bookmark. Then
  \<open>get_cards\<close> returns, with fuel for as many turns of its loop as there are pages or for
  more, exactly the concatenation of the pages' \<open>docs\<close> in page order (an empty last page
  adds nothing, a last page without bookmark is included); the length of the result is the
  sum of the lengths of the pages' \<open>docs\<close>; it makes one request for each page and leaves
  untouched what the service would have answered next.
\<close>

theorem get_cards_concatenates_pages:
  assumes "pages \<noteq> []" and "list_all more_follows (butlast pages)"
    and "\<not> more_follows (last pages)" and "server w = map page_response pages @ rest"
  shows "get_cards (length pages + k) lib scripted cfg deck_id w =
           Some (Inr (concat (map fst pages)),
             w\<lparr>server := rest,
               trace := trace w @
                 cards_run cfg (api_base_url cfg @ lit ''/cards?deck-id='' @ fmt lib deck_id @
                    lit ''&limit=100'') pages\<rparr>)
       \<and> length (concat (map fst pages)) = sum_list (map (\<lambda>p. length (fst p)) pages)
       \<and> length (gets_of (cards_run cfg (api_base_url cfg @ lit ''/cards?deck-id='' @ fmt lib deck_id @
                    lit ''&limit=100'') pages)) = length pages"
proof -
  have u: "api_base_url cfg @ lit ''/cards?deck-id='' @ fmt lib deck_id @ lit ''&limit=100'' \<noteq> []"
    by (simp add: lit_def)
  from cards_scripted_run [OF assms(1-3) u assms(4), of k lib cfg "[]"]
  show ?thesis
    by (simp add: get_cards_def length_concat length_gets_cards_run comp_def)
qed

text \<open>Two pages, of two cards and of one.\<close>

theorem get_cards_concatenates_pages_witness:
  "fst (the (get_cards (length two_pages) example_lib scripted example_cfg (JStr (lit ''D1''))
       (world0 (map page_response two_pages)))) =
     Inr [JStr (lit ''c1''), JStr (lit ''c2''), JStr (lit ''c3'')]"
  using get_cards_concatenates_pages [of two_pages "world0 (map page_response two_pages)" "[]"
      0 example_lib example_cfg "JStr (lit ''D1'')"]
  by (simp add: two_pages_def more_follows_def world0_def lit_def)

subsection \<open>C8: the file written and read back\<close>

text \<open>
  C8, as amended. For the records in input order the writer hands to \<open>f.write\<close> the four
  lines \<open>Pinyin: \<close>, \<open>Hanzi: \<close>, \<open>Meaning: \<close>, \<open>Added: \<close> followed by the field's text (nothing
  after the colon and space for an empty field), with a line \<open>---\<close> after every record but
  the last. When no field's text holds a lone surrogate, every write returns and these lines,
  in order, are the content of the output file. When moreover no field's text has a line
  feed in it, reading the file back line by line, with the lines \<open>---\<close> as separators, gives
  one block for each record, in order, and each block gives back the four texts written.
\<close>

theorem write_then_read_back:
  "write_loop lib (length (rs @ [r])) 1 (rs @ [r]) =
      concat (map (\<lambda>p. record_lines lib p @ [lit ''---'' @ [10]]) rs) @ record_lines lib r
   \<and> write_loop lib (length ([] :: parsed list)) 1 [] = []
   \<and> (list_all (encodable lib) ps \<longrightarrow>
        f_write (write_loop lib (length ps) 1 ps) [] =
          (None, concat (write_loop lib (length ps) 1 ps)))
   \<and> (list_all (encodable lib) ps \<and> list_all (single_line lib) ps \<longrightarrow>
        read_back (snd (f_write (write_loop lib (length ps) 1 ps) [])) =
          map (\<lambda>p. Some (pinyin p, hanzi p, fmt lib (meaning p), fmt lib (added p))) ps)
   \<and> (\<not> unwritable w (output_file cfg) \<and> valid_cards_loop lib cards [] w = (Inr vs, w') \<and>
      list_all (encodable lib) vs \<longrightarrow>
        write_vocab_to_file lib cfg cards w =
          (Inr (),
           py_print (WroteValidCards (length vs) (output_file cfg))
             (w'\<lparr>files := (files w')(output_file cfg \<mapsto>
                    concat (write_loop lib (length vs) 1 vs))\<rparr>)))"
proof -
  have a: "write_loop lib (length (rs @ [r])) 1 (rs @ [r]) =
      concat (map (\<lambda>p. record_lines lib p @ [lit ''---'' @ [10]]) rs) @ record_lines lib r"
    by (rule write_loop_snoc) simp
  have e: "f_write (write_loop lib (length qs) 1 qs) [] =
          (None, concat (write_loop lib (length qs) 1 qs))"
    if "list_all (encodable lib) qs" for qs
    using f_write_all [OF write_loop_encodable [OF that], of "length qs" 1 "[]"] by simp
  have b: "list_all (single_line lib) ps \<longrightarrow>
        read_back (concat (write_loop lib (length ps) 1 ps)) =
          map (\<lambda>p. Some (pinyin p, hanzi p, fmt lib (meaning p), fmt lib (added p))) ps"
  proof
    assume ok: "list_all (single_line lib) ps"
    show "read_back (concat (write_loop lib (length ps) 1 ps)) =
          map (\<lambda>p. Some (pinyin p, hanzi p, fmt lib (meaning p), fmt lib (added p))) ps"
    proof (cases "ps = []")
      case True
      then show ?thesis by (simp add: read_back_def)
    next
      case False
      have l: "lines_of (concat (write_loop lib (length ps) 1 ps)) =
                 join_blocks (map (labelled_lines lib) ps)"
        using ok by (rule lines_of_write_loop) simp
      have s: "split_at (lit ''---'') (join_blocks (map (labelled_lines lib) ps)) = map (labelled_lines lib) ps"
        using False by (intro split_at_join) (simp_all add: list_all_iff labelled_no_sep)
      have n: "concat (write_loop lib (length ps) 1 ps) \<noteq> []"
        using False by (rule write_loop_nonempty)
      from n show ?thesis
        by (simp add: read_back_def l [unfolded One_nat_def] s read_block_labelled comp_def
              del: concat_eq_Nil_conv)
    qed
  qed
  have c: "\<not> unwritable w (output_file cfg) \<and> valid_cards_loop lib cards [] w = (Inr vs, w') \<and>
      list_all (encodable lib) vs \<longrightarrow>
        write_vocab_to_file lib cfg cards w =
          (Inr (),
           py_print (WroteValidCards (length vs) (output_file cfg))
             (w'\<lparr>files := (files w')(output_file cfg \<mapsto>
                    concat (write_loop lib (length vs) 1 vs))\<rparr>))"
  proof
    assume h: "\<not> unwritable w (output_file cfg) \<and> valid_cards_loop lib cards [] w = (Inr vs, w') \<and>
      list_all (encodable lib) vs"
    then have u: "\<not> unwritable w' (output_file cfg)"
      using valid_cards_loop_keeps [of lib cards "[]" w "Inr vs" w'] by simp
    from h have f: "f_write (write_loop lib (length vs) 1 vs) [] =
          (None, concat (write_loop lib (length vs) 1 vs))"
      by (intro e) simp
    from h u f show "write_vocab_to_file lib cfg cards w =
          (Inr (),
           py_print (WroteValidCards (length vs) (output_file cfg))
             (w'\<lparr>files := (files w')(output_file cfg \<mapsto>
                    concat (write_loop lib (length vs) 1 vs))\<rparr>))"
      by (simp add: write_vocab_to_file_def)
  qed
  have d: "list_all (encodable lib) ps \<and> list_all (single_line lib) ps \<longrightarrow>
        read_back (snd (f_write (write_loop lib (length ps) 1 ps) [])) =
          map (\<lambda>p. Some (pinyin p, hanzi p, fmt lib (meaning p), fmt lib (added p))) ps"
    using b e [of ps] by simp
  have e': "list_all (encodable lib) ps \<longrightarrow>
        f_write (write_loop lib (length ps) 1 ps) [] =
          (None, concat (write_loop lib (length ps) 1 ps))"
    using e [of ps] by simp
  from a e' d c show ?thesis by simp
qed

text \<open>
  Two records, one with an empty pinyin and one with an empty date, written and read back;
  and the file that one card leaves.
\<close>

theorem write_then_read_back_witness:
  "f_write (write_loop example_lib 2 1
      [\<lparr>pinyin = [109, 233, 105], hanzi = [27809], meaning = JStr (lit ''not''), added = JStr []\<rparr>,
       \<lparr>pinyin = [], hanzi = lit ''DD'', meaning = JStr (lit ''disc''), added = JStr (lit ''2023'')\<rparr>]) [] =
     (None,
      lit ''Pinyin: '' @ [109, 233, 105, 10] @ lit ''Hanzi: '' @ [27809, 10] @
      lit ''Meaning: not'' @ [10] @ lit ''Added: '' @ [10] @ lit ''---'' @ [10] @
      lit ''Pinyin: '' @ [10] @ lit ''Hanzi: DD'' @ [10] @
      lit ''Meaning: disc'' @ [10] @ lit ''Added: 2023'' @ [10])
   \<and> read_back (snd (f_write (write_loop example_lib 2 1
      [\<lparr>pinyin = [109, 233, 105], hanzi = [27809], meaning = JStr (lit ''not''), added = JStr []\<rparr>,
       \<lparr>pinyin = [], hanzi = lit ''DD'', meaning = JStr (lit ''disc''), added = JStr (lit ''2023'')\<rparr>]) [])) =
    [Some ([109, 233, 105], [27809], lit ''not'', []), Some ([], lit ''DD'', lit ''disc'', lit ''2023'')]
   \<and> files (snd (write_vocab_to_file example_lib example_cfg [dvd_card] (world0 ())))
       (output_file example_cfg) =
     Some (lit ''Pinyin: '' @ [10] @ lit ''Hanzi: DD'' @ [10] @ lit ''Meaning: disc'' @ [10] @
           lit ''Added: '' @ [10])"
proof -
  have d: "parse_card example_lib dvd_card =
      (Inr (Some \<lparr>pinyin = [], hanzi = lit ''DD'', meaning = JStr (lit ''disc''), added = JStr []\<rparr>), [])"
    by (simp add: parse_card_def parse_card_try_def extract_pinyin_def extract_hanzi_def
        extract_meaning_def extract_added_def after_def dvd_card_def example_lib_def lit_def
        py_strip_def isspace_def)
  have l: "valid_cards_loop example_lib [dvd_card] [] (world0 ()) =
      (Inr [\<lparr>pinyin = [], hanzi = lit ''DD'', meaning = JStr (lit ''disc''), added = JStr []\<rparr>], world0 ())"
    by (simp add: d print_all_Nil)
  have s: "\<not> is_surrogate 27809" "\<not> is_surrogate 109" "\<not> is_surrogate 233" "\<not> is_surrogate 105"
    by (simp_all add: is_surrogate_def)
  from write_then_read_back [where lib = example_lib and rs = "[]" and r = tricky
      and ps = "[\<lparr>pinyin = [109, 233, 105], hanzi = [27809], meaning = JStr (lit ''not''), added = JStr []\<rparr>,
       \<lparr>pinyin = [], hanzi = lit ''DD'', meaning = JStr (lit ''disc''), added = JStr (lit ''2023'')\<rparr>]"
      and w = "world0 ()" and cfg = example_cfg and cards = "[dvd_card]" and w' = "world0 ()"
      and vs = "[\<lparr>pinyin = [], hanzi = lit ''DD'', meaning = JStr (lit ''disc''), added = JStr []\<rparr>]"]
    l
  show ?thesis
    by (simp add: single_line_def encodable_def write_raises_def s record_lines_def
        world0_def py_print_def emit_def lit_def is_surrogate_def)
qed

text \<open>
  The claim as stated has every list of \<open>N\<close> records written and read back as \<open>N\<close> blocks
  that give the records. One record whose meaning holds a line \<open>---\<close> is read back as two
  blocks, neither of which is a record. And one card whose hanzi is a lone surrogate gives a
  record that cannot be written: the second \<open>f.write\<close> raises UnicodeEncodeError and the
  file is left with the line of the pinyin alone.
\<close>

theorem line_feed_or_surrogate_counterexample:
  "read_back (concat (write_loop example_lib (length [tricky]) 1 [tricky])) = [None, None]
   \<and> fst (write_vocab_to_file example_lib example_cfg [surrogate_card] (world0 ())) =
       Inl UnicodeEncodeError
   \<and> files (snd (write_vocab_to_file example_lib example_cfg [surrogate_card] (world0 ())))
       (output_file example_cfg) = Some (lit ''Pinyin: '' @ [10])"
proof -
  have a: "read_back (concat (write_loop example_lib (length [tricky]) 1 [tricky])) = [None, None]"
    by (simp add: read_back_def tricky_def record_lines_def lit_def strip_label_def)
  have p: "parse_card example_lib surrogate_card =
      (Inr (Some \<lparr>pinyin = [], hanzi = [55357], meaning = JStr (lit ''smile''), added = JStr []\<rparr>), [])"
    by (simp add: parse_card_def parse_card_try_def extract_pinyin_def extract_hanzi_def
        extract_meaning_def extract_added_def after_def surrogate_card_def example_lib_def lit_def
        py_strip_def isspace_def)
  have f: "f_write (write_loop example_lib (Suc 0) (Suc 0)
              [\<lparr>pinyin = [], hanzi = [55357], meaning = JStr (lit ''smile''), added = JStr []\<rparr>]) [] =
           (Some UnicodeEncodeError, lit ''Pinyin: '' @ [10])"
    by (simp add: record_lines_def write_raises_def is_surrogate_def lit_def)
  have b: "write_vocab_to_file example_lib example_cfg [surrogate_card] (world0 ()) =
      (Inl UnicodeEncodeError,
       (world0 ())\<lparr>files := (files (world0 ()))(output_file example_cfg \<mapsto> lit ''Pinyin: '' @ [10])\<rparr>)"
    using f by (simp add: write_vocab_to_file_def p print_all_Nil del: write_loop.simps f_write.simps)
      (simp add: world0_def)
  from a b show ?thesis by simp
qed

subsection \<open>C9: the output file when the run fails before the write step\<close>

text \<open>
  C9. A run that fails while loading the configuration, in \<open>get_deck_id\<close> or in \<open>get_cards\<close>
  ends with every file as it was before the run, the output file included: it is neither
  created nor changed. \<open>get_deck_id\<close> and \<open>get_cards\<close> never change a file, whatever they
  return; only \<open>write_vocab_to_file\<close> does.
\<close>

theorem failure_before_write_keeps_files:
  "(load_config env w = (Inl e, w1) \<longrightarrow>
      program fuel lib srv env w = Some (Uncaught e, w1) \<and> files w1 = files w)
   \<and> (load_config env w = (Inr cfg, w1) \<and>
      get_deck_id fuel lib srv cfg (deck_name cfg) (py_print (FetchingDeck (deck_name cfg)) w1)
        = Some (Inl e, w2) \<longrightarrow>
      program fuel lib srv env w = Some (Exit0, py_print (ErrorMessage e) w2) \<and>
      files (py_print (ErrorMessage e) w2) = files w)
   \<and> (load_config env w = (Inr cfg, w1) \<and>
      get_deck_id fuel lib srv cfg (deck_name cfg) (py_print (FetchingDeck (deck_name cfg)) w1)
        = Some (Inr deck_id, w2) \<and>
      get_cards fuel lib srv cfg deck_id (py_print FetchingCards w2) = Some (Inl e, w4) \<longrightarrow>
      program fuel lib srv env w = Some (Exit0, py_print (ErrorMessage e) w4) \<and>
      files (py_print (ErrorMessage e) w4) = files w)
   \<and> (get_deck_id fuel lib srv cfg wanted w = Some (r, w') \<longrightarrow> files w' = files w)
   \<and> (get_cards fuel lib srv cfg deck_id w = Some (r', w'') \<longrightarrow> files w'' = files w)"
proof -
  have d: "\<And>wanted w r w'. get_deck_id fuel lib srv cfg wanted w = Some (r, w') \<Longrightarrow> files w' = files w"
    unfolding get_deck_id_def by (rule get_deck_id_loop_files)
  have c: "\<And>deck_id w r w'. get_cards fuel lib srv cfg deck_id w = Some (r, w') \<Longrightarrow> files w' = files w"
    unfolding get_cards_def by (rule get_cards_loop_files)
  have 1: "load_config env w = (Inl e, w1) \<longrightarrow>
      program fuel lib srv env w = Some (Uncaught e, w1) \<and> files w1 = files w"
    by (auto simp: program_def dest: load_config_files)
  have 2: "load_config env w = (Inr cfg, w1) \<and>
      get_deck_id fuel lib srv cfg (deck_name cfg) (py_print (FetchingDeck (deck_name cfg)) w1)
        = Some (Inl e, w2) \<longrightarrow>
      program fuel lib srv env w = Some (Exit0, py_print (ErrorMessage e) w2) \<and>
      files (py_print (ErrorMessage e) w2) = files w"
    by (auto simp: program_def main_def dest!: load_config_files d)
  have 3: "load_config env w = (Inr cfg, w1) \<and>
      get_deck_id fuel lib srv cfg (deck_name cfg) (py_print (FetchingDeck (deck_name cfg)) w1)
        = Some (Inr deck_id, w2) \<and>
      get_cards fuel lib srv cfg deck_id (py_print FetchingCards w2) = Some (Inl e, w4) \<longrightarrow>
      program fuel lib srv env w = Some (Exit0, py_print (ErrorMessage e) w4) \<and>
      files (py_print (ErrorMessage e) w4) = files w"
    by (auto simp: program_def main_def dest!: load_config_files d c)
  from 1 2 3 d c show ?thesis by blast
qed

text \<open>
  An output file that exists keeps its content when the deck listing answers 500, when the
  card listing answers 500 and when the API key is missing.
\<close>

theorem failure_before_write_keeps_files_witness:
  "map_option (\<lambda>sw. files (snd sw) (lit ''chinese_vocab.txt''))
     (program 1 example_lib (always (Response 500 (lit ''oops'') None)) env_with_key
        ((world0 ())\<lparr>files := [lit ''chinese_vocab.txt'' \<mapsto> lit ''old'']\<rparr>))
   = Some (Some (lit ''old''))
   \<and> map_option (\<lambda>sw. files (snd sw) (lit ''chinese_vocab.txt''))
     (program 1 example_lib scripted env_with_key
        ((world0 [chinese_deck_page, Response 500 (lit ''oops'') None])
           \<lparr>files := [lit ''chinese_vocab.txt'' \<mapsto> lit ''old'']\<rparr>))
   = Some (Some (lit ''old''))
   \<and> map_option (\<lambda>sw. files (snd sw) (lit ''chinese_vocab.txt''))
     (program 1 example_lib scripted env_without_key
        ((world0 [])\<lparr>files := [lit ''chinese_vocab.txt'' \<mapsto> lit ''old'']\<rparr>))
   = Some (Some (lit ''old''))"
proof -
  have a: "map_option (\<lambda>sw. files (snd sw) (lit ''chinese_vocab.txt''))
     (program 1 example_lib (always (Response 500 (lit ''oops'') None)) env_with_key
        ((world0 ())\<lparr>files := [lit ''chinese_vocab.txt'' \<mapsto> lit ''old'']\<rparr>))
   = Some (Some (lit ''old''))"
    using failure_before_write_keeps_files [of env_with_key
      "(world0 ())\<lparr>files := [lit ''chinese_vocab.txt'' \<mapsto> lit ''old'']\<rparr>"]
    by (simp add: program_def load_config_def env_with_key_def main_def get_deck_id_def retries_upt
        client_get_def always_def decks_response_def emit_def py_print_def lit_def world0_def)
  have b: "map_option (\<lambda>sw. files (snd sw) (lit ''chinese_vocab.txt''))
     (program 1 example_lib scripted env_with_key
        ((world0 [chinese_deck_page, Response 500 (lit ''oops'') None])
           \<lparr>files := [lit ''chinese_vocab.txt'' \<mapsto> lit ''old'']\<rparr>))
   = Some (Some (lit ''old''))"
    by (simp add: program_def load_config_def env_with_key_def main_def get_deck_id_def get_cards_def
        retries_upt client_get_def scripted_def decks_response_def cards_response_def after_def
        chinese_deck_page_def example_lib_def world0_def emit_def py_print_def lit_def)
  have c: "map_option (\<lambda>sw. files (snd sw) (lit ''chinese_vocab.txt''))
     (program 1 example_lib scripted env_without_key
        ((world0 [])\<lparr>files := [lit ''chinese_vocab.txt'' \<mapsto> lit ''old'']\<rparr>))
   = Some (Some (lit ''old''))"
    by (simp add: program_def load_config_def env_without_key_def world0_def)
  from a b c show ?thesis by simp
qed

subsection \<open>C10: only status 200 is accepted\<close>

text \<open>
  C10. A response is accepted by \<open>get_deck_id\<close> and \<open>get_cards\<close> only when its status is
  exactly 200. When the service answers a request with any other status (201 and 204
  included), at any attempt of the retry loop and for any page, the function raises at once
  the exception that carries the status code and the body text: that request is the last
  thing it does, with no retry and no sleep. The loops are stated from any URL they hold;
  \<open>get_deck_id\<close> and \<open>get_cards\<close> are these loops started at the first URL.
\<close>

theorem non_200_status_fails_without_retry:
  assumes "srv (server w) url = (Response status tx body, s')" and "status \<noteq> 200"
  shows "decks_attempts lib srv cfg wanted url (attempt # rest) w =
           (Inl (FailedToFetch Decks status tx), emit (Get url) (w\<lparr>server := s'\<rparr>))
       \<and> cards_attempts lib srv cfg cards url (attempt # rest) w =
           (Inl (FailedToFetch Cards status tx), emit (Get url) (w\<lparr>server := s'\<rparr>))
       \<and> (url \<noteq> [] \<longrightarrow>
           get_deck_id_loop (Suc fuel) lib srv cfg wanted url w =
             Some (Inl (FailedToFetch Decks status tx), emit (Get url) (w\<lparr>server := s'\<rparr>))
         \<and> get_cards_loop (Suc fuel) lib srv cfg cards url w =
             Some (Inl (FailedToFetch Cards status tx), emit (Get url) (w\<lparr>server := s'\<rparr>)))"
  using assms by (simp add: retries_upt client_get_def decks_response_def cards_response_def)

text \<open>Both functions against a service that answers 204.\<close>

theorem non_200_status_fails_without_retry_witness:
  "get_deck_id (Suc 0) example_lib (always (Response 204 (lit ''gone'') None)) example_cfg
       (lit ''Chinese'') (world0 ()) =
     Some (Inl (FailedToFetch Decks 204 (lit ''gone'')),
           (world0 ())\<lparr>trace := [Get (lit ''http://m/api/decks'')]\<rparr>)
   \<and> get_cards (Suc 0) example_lib (always (Response 204 (lit ''gone'') None)) example_cfg
       (JStr (lit ''D1'')) (world0 ()) =
     Some (Inl (FailedToFetch Cards 204 (lit ''gone'')),
           (world0 ())\<lparr>trace := [Get (lit ''http://m/api/cards?deck-id=D1&limit=100'')]\<rparr>)"
proof -
  let ?srv = "always (Response 204 (lit ''gone'') None) :: unit server"
  let ?d = "lit ''http://m/api/decks''"
  let ?c = "lit ''http://m/api/cards?deck-id=D1&limit=100''"
  have sd: "?srv (server (world0 ())) ?d = (Response 204 (lit ''gone'') None, ())"
    and sc: "?srv (server (world0 ())) ?c = (Response 204 (lit ''gone'') None, ())"
    and n: "(204::int) \<noteq> 200"
    by (simp_all add: always_def)
  have d: "get_deck_id_loop (Suc 0) example_lib ?srv example_cfg (lit ''Chinese'') ?d (world0 ())
     = Some (Inl (FailedToFetch Decks 204 (lit ''gone'')), emit (Get ?d) ((world0 ())\<lparr>server := ()\<rparr>))"
    using non_200_status_fails_without_retry [where srv = ?srv and w = "world0 ()" and url = ?d
        and lib = example_lib and cfg = example_cfg and wanted = "lit ''Chinese''" and fuel = 0, OF sd n]
    by (simp add: lit_def)
  have c: "get_cards_loop (Suc 0) example_lib ?srv example_cfg [] ?c (world0 ())
     = Some (Inl (FailedToFetch Cards 204 (lit ''gone'')), emit (Get ?c) ((world0 ())\<lparr>server := ()\<rparr>))"
    using non_200_status_fails_without_retry [where srv = ?srv and w = "world0 ()" and url = ?c
        and lib = example_lib and cfg = example_cfg and cards = "[]" and fuel = 0, OF sc n]
    by (simp add: lit_def)
  have u: "api_base_url example_cfg @ lit ''/decks'' = ?d"
     "api_base_url example_cfg @ lit ''/cards?deck-id='' @ fmt example_lib (JStr (lit ''D1'')) @ lit ''&limit=100'' = ?c"
    by (simp_all add: example_cfg_def lit_def)
  show ?thesis
    unfolding get_deck_id_def get_cards_def u d c by (simp add: emit_def world0_def)
qed

section \<open>The paths that succeed\<close>

text \<open>
  \<open>get_deck_id\<close> returns the identifier of the first deck whose name is the wanted one up
  to case, on whatever page it is: the pages before it have no such deck, have decks and a
  bookmark, and each is requested once.
\<close>

lemma get_deck_id_finds_deck_on_any_page:
  assumes "list_all (\<lambda>p. find (\<lambda>d. str_lower lib (fst d) = str_lower lib wanted) (fst p) = None
                         \<and> fst p \<noteq> [] \<and> snd p \<noteq> []) pages"
    and "find (\<lambda>d. str_lower lib (fst d) = str_lower lib wanted) ds = Some d"
    and "server w =
           map (\<lambda>p. page_response (map deck_json (fst p), Some (snd p))) pages @
           page_response (map deck_json ds, b) # rest"
  shows "map_option (\<lambda>rw. (fst rw, length (gets_of (trace (snd rw))), server (snd rw)))
           (get_deck_id (Suc (length pages) + k) lib scripted cfg wanted w) =
         Some (Inr (JStr (snd d)), length (gets_of (trace w)) + Suc (length pages), rest)"
proof -
  let ?ps = "map (\<lambda>p. (map deck_json (fst p), Some (snd p))) pages"
  have 1: "list_all (no_match lib wanted) ?ps"
    using assms(1) by (induction pages) (simp_all add: no_match_def find_deck_well_formed)
  have 2: "list_all more_follows ?ps"
    using assms(1) by (induction pages) (simp_all add: more_follows_def)
  have 3: "find_deck lib wanted (fst (map deck_json ds, b)) = Inr (Some (JStr (snd d)))"
    using assms(2) by (simp add: find_deck_well_formed)
  have u: "api_base_url cfg @ lit ''/decks'' \<noteq> []" by (simp add: lit_def)
  have 4: "server w = map page_response (?ps @ [(map deck_json ds, b)]) @ rest"
    using assms(3) by (simp add: comp_def)
  have l: "length (gets_of (decks_run cfg url ps)) = length ps" for url ps
    by (induction ps arbitrary: url) simp_all
  from decks_scripted_found [OF 1 2 3 u 4, of k cfg]
  show ?thesis by (simp add: get_deck_id_def gets_of_append l)
qed

text \<open>A deck written in capitals on the second page, asked for in lower case.\<close>

lemma get_deck_id_finds_deck_on_any_page_witness:
  "map_option fst
     (get_deck_id (Suc (Suc 0)) (example_lib\<lparr>str_lower := map (\<lambda>c. if 65 \<le> c \<and> c \<le> 90 then c + 32 else c)\<rparr>)
        scripted example_cfg (lit ''chinese'')
        (world0 [page_response ([deck_json (lit ''Japanese'', lit ''J1'')], Some (lit ''B1'')),
                 page_response ([deck_json (lit ''Korean'', lit ''K1''), deck_json (lit ''CHINESE'', lit ''D1'')], None)]))
   = Some (Inr (JStr (lit ''D1'')))"
  using get_deck_id_finds_deck_on_any_page [of
      "example_lib\<lparr>str_lower := map (\<lambda>c. if 65 \<le> c \<and> c \<le> 90 then c + 32 else c)\<rparr>"
      "lit ''chinese''" "[([(lit ''Japanese'', lit ''J1'')], lit ''B1'')]"
      "[(lit ''Korean'', lit ''K1''), (lit ''CHINESE'', lit ''D1'')]" "(lit ''CHINESE'', lit ''D1'')"
      "world0 [page_response ([deck_json (lit ''Japanese'', lit ''J1'')], Some (lit ''B1'')),
                 page_response ([deck_json (lit ''Korean'', lit ''K1''), deck_json (lit ''CHINESE'', lit ''D1'')], None)]"
      None "[]" 0 example_cfg]
  by (auto simp: world0_def lit_def)

text \<open>
  The example card of the specification parses to pinyin \<open>m\<close>, \<open>e\<close> with acute, \<open>i\<close>, the
  hanzi U+6CA1, the meaning \<open>not\<close> and the date as the runtime formats it.
\<close>

lemma spec_example_parses:
  assumes "reformat_iso lib (lit ''2023-01-01T10:00:00+00:00'') = Some t"
  shows "parse_card lib spec_card =
     (Inr (Some \<lparr>pinyin = [109, 233, 105], hanzi = [27809], meaning = JStr (lit ''not''), added = JStr t\<rparr>), [])"
proof -
  have r: "concat (map (\<lambda>c. if c = 90 then lit ''+00:00'' else [c]) (lit ''2023-01-01T10:00:00Z''))
        = lit ''2023-01-01T10:00:00+00:00''"
    by (simp add: lit_def)
  have a: "extract_added lib spec_card = Inr (JStr t)"
    using assms by (simp add: extract_added_def after_def spec_card_def r) (simp add: lit_def)
  have p: "extract_pinyin spec_card = Inr [109, 233, 105]"
    by (simp add: extract_pinyin_def after_def spec_card_def lit_def)
  have h: "extract_hanzi spec_card = Inr [27809]"
    by (simp add: extract_hanzi_def after_def spec_card_def lit_def py_strip_def isspace_def)
  have m: "extract_meaning spec_card = Inr (JStr (lit ''not''))"
    by (simp add: extract_meaning_def after_def spec_card_def lit_def)
  show ?thesis
    by (simp add: parse_card_def parse_card_try_def after_def a p h m)
qed

lemma spec_example_parses_witness:
  "parse_card (example_lib\<lparr>reformat_iso := (\<lambda>s. Some (lit ''2023-01-01 10:00:00''))\<rparr>) spec_card =
     (Inr (Some \<lparr>pinyin = [109, 233, 105], hanzi = [27809], meaning = JStr (lit ''not''),
            added = JStr (lit ''2023-01-01 10:00:00'')\<rparr>), [])"
  using spec_example_parses [of "example_lib\<lparr>reformat_iso := (\<lambda>s. Some (lit ''2023-01-01 10:00:00''))\<rparr>"
      "lit ''2023-01-01 10:00:00''"]
  by simp

text \<open>
  For the cards whose raw content the terminal can print, \<open>parse_card\<close> returns \<open>None\<close>
  exactly when an exception is raised during the extraction or when pinyin, hanzi and
  meaning all come out empty (empty as \<open>not x\<close> tests it: the empty string, and for a
  meaning that is not a string any falsy value). An exception is caught for that card and
  printed with the raw card. When the four extractions succeed and one of the three fields
  is not empty, the record is returned and nothing is printed, whatever the card holds. The
  loop of \<open>write_vocab_to_file\<close> goes through every such card: the valid cards are the
  records of the cards that parse, in order, whatever the cards before or after them do.
\<close>

lemma printable_card_none_exactly:
  "(\<not> card_print_raises lib crd \<longrightarrow>
      (fst (parse_card lib crd) = Inr None \<longleftrightarrow>
         (\<exists>e. parse_card_try lib crd = Inl e) \<or>
         (extract_pinyin crd = Inr [] \<and> extract_hanzi crd = Inr [] \<and>
          (\<exists>m. extract_meaning crd = Inr m \<and> \<not> truthy m))))
   \<and> (\<not> card_print_raises lib crd \<and> parse_card_try lib crd = Inl e \<longrightarrow>
        parse_card lib crd = (Inr None, [ErrorParsingCard e crd]))
   \<and> (extract_pinyin crd = Inr p \<and> extract_hanzi crd = Inr h \<and> extract_meaning crd = Inr m \<and>
      extract_added lib crd = Inr a \<and> (p \<noteq> [] \<or> h \<noteq> [] \<or> truthy m) \<longrightarrow>
        parse_card lib crd = (Inr (Some \<lparr>pinyin = p, hanzi = h, meaning = m, added = a\<rparr>), []))
   \<and> (list_all (\<lambda>c. \<not> card_print_raises lib c) cards \<longrightarrow>
        valid_cards_loop lib cards valid w =
          (Inr (valid @ concat (map (\<lambda>c. case fst (parse_card lib c) of
                                           Inr (Some r) \<Rightarrow> [r] | Inr None \<Rightarrow> [] | Inl e \<Rightarrow> []) cards)),
           print_all (concat (map (\<lambda>c. snd (parse_card lib c)) cards)) w))"
proof -
  have a: "\<not> card_print_raises lib crd \<longrightarrow>
      (fst (parse_card lib crd) = Inr None \<longleftrightarrow>
         (\<exists>e. parse_card_try lib crd = Inl e) \<or>
         (extract_pinyin crd = Inr [] \<and> extract_hanzi crd = Inr [] \<and>
          (\<exists>m. extract_meaning crd = Inr m \<and> \<not> truthy m)))"
    by (cases "extract_pinyin crd"; cases "extract_hanzi crd"; cases "extract_meaning crd";
        cases "extract_added lib crd")
       (auto simp: parse_card_def parse_card_try_def after_def)
  have b: "\<not> card_print_raises lib crd \<and> parse_card_try lib crd = Inl e \<longrightarrow>
        parse_card lib crd = (Inr None, [ErrorParsingCard e crd])"
    by (simp add: parse_card_def)
  have c: "extract_pinyin crd = Inr p \<and> extract_hanzi crd = Inr h \<and> extract_meaning crd = Inr m \<and>
      extract_added lib crd = Inr a \<and> (p \<noteq> [] \<or> h \<noteq> [] \<or> truthy m) \<longrightarrow>
        parse_card lib crd = (Inr (Some \<lparr>pinyin = p, hanzi = h, meaning = m, added = a\<rparr>), [])"
    by (auto simp: parse_card_def parse_card_try_def after_def)
  have d: "list_all (\<lambda>c. \<not> card_print_raises lib c) cards \<longrightarrow>
        valid_cards_loop lib cards valid w =
          (Inr (valid @ concat (map (\<lambda>c. case fst (parse_card lib c) of
                                           Inr (Some r) \<Rightarrow> [r] | Inr None \<Rightarrow> [] | Inl e \<Rightarrow> []) cards)),
           print_all (concat (map (\<lambda>c. snd (parse_card lib c)) cards)) w)"
    using valid_cards_all [of lib cards valid w] by blast
  from a b c d show ?thesis by blast
qed

text \<open>
  Three cards: one that is not a dict, one that parses, one with nothing in it. The valid
  cards are the record of the second.
\<close>

lemma printable_card_none_exactly_witness:
  "parse_card example_lib JNull = (Inr None, [ErrorParsingCard AttributeError JNull])
   \<and> fst (valid_cards_loop example_lib [JNull, dvd_card, JObj []] [] (world0 ())) =
       Inr [\<lparr>pinyin = [], hanzi = lit ''DD'', meaning = JStr (lit ''disc''), added = JStr []\<rparr>]"
proof -
  have t: "parse_card_try example_lib JNull = Inl AttributeError"
    by (simp add: parse_card_try_def extract_pinyin_def after_def)
  have d: "parse_card example_lib dvd_card =
      (Inr (Some \<lparr>pinyin = [], hanzi = lit ''DD'', meaning = JStr (lit ''disc''), added = JStr []\<rparr>), [])"
    by (simp add: parse_card_def parse_card_try_def extract_pinyin_def extract_hanzi_def
        extract_meaning_def extract_added_def after_def dvd_card_def example_lib_def lit_def
        py_strip_def isspace_def)
  have e: "parse_card example_lib (JObj []) = (Inr None, [SkippingCard (JObj [])])"
    by (simp add: parse_card_def parse_card_try_def extract_pinyin_def extract_hanzi_def
        extract_meaning_def extract_added_def after_def card_print_raises_def print_raises_def)
  have r: "\<not> card_print_raises example_lib JNull" "\<not> card_print_raises example_lib (JObj [])"
    "\<not> card_print_raises example_lib dvd_card"
    by (simp_all add: card_print_raises_def print_raises_def dvd_card_def lit_def is_surrogate_def)
  from printable_card_none_exactly [where lib = example_lib and crd = JNull and e = AttributeError
      and p = "[]" and h = "[]" and m = JNull and a = JNull
      and cards = "[JNull, dvd_card, JObj []]" and valid = "[]" and w = "world0 ()"] t r
  show ?thesis by (simp add: d e)
qed

end
